theory Spec2Isabelle
  imports Complex_Main "HOL-Library.Char_ord" "HOL-Library.List_Lexorder"
    "HOL-Library.AList" "HOL-Library.Multiset"
begin

section \<open>Floating-point pressures\<close>

text \<open>
  Invasion pressures are numpy floats that start at \<open>np.inf\<close> and are overwritten with
  threshold values. A pressure is a finite value or plus infinity; NaN and minus infinity
  never arise from \<open>reset\<close> and are not represented. Finite values are idealised as
  reals: the properties below use comparisons only, which IEEE floats and reals share.
\<close>

datatype pressure = Fin real | PInf

instantiation pressure :: linorder
begin

fun less_eq_pressure :: "pressure \<Rightarrow> pressure \<Rightarrow> bool" where
  "less_eq_pressure (Fin a) (Fin b) = (a \<le> b)"
| "less_eq_pressure (Fin a) PInf = True"
| "less_eq_pressure PInf (Fin b) = False"
| "less_eq_pressure PInf PInf = True"

fun less_pressure :: "pressure \<Rightarrow> pressure \<Rightarrow> bool" where
  "less_pressure (Fin a) (Fin b) = (a < b)"
| "less_pressure (Fin a) PInf = True"
| "less_pressure PInf (Fin b) = False"
| "less_pressure PInf PInf = False"

instance
proof
  fix x y z :: pressure
  show "(x < y) = (x \<le> y \<and> \<not> y \<le> x)"
    by (cases x; cases y) auto
  show "x \<le> x"
    by (cases x) auto
  show "x \<le> y \<Longrightarrow> y \<le> z \<Longrightarrow> x \<le> z"
    by (cases x; cases y; cases z) auto
  show "x \<le> y \<Longrightarrow> y \<le> x \<Longrightarrow> x = y"
    by (cases x; cases y) auto
  show "x \<le> y \<or> y \<le> x"
    by (cases x; cases y) auto
qed

end

section \<open>The numpy operations the algorithms use\<close>

datatype error =
    PercolationTypeNotSet
  | InletsNotSpecified
  | OutletsNotSpecified
  | OnlyAccessLimited
  | KeyError string
  | ValueError
  | IndexError
  | UnboundLocalError
  | AttributeError
  | FloatOutsideModel

text \<open>
  \<open>FloatOutsideModel\<close> is not a Python exception: it marks the places where numpy would
  go on with NaN or minus infinity (\<open>log10\<close> of a non-positive number), which the
  pressure type above does not represent.
\<close>

text \<open>\<open>np.unique\<close>: the sorted distinct values of an array.\<close>

definition unique :: "'a::linorder list \<Rightarrow> 'a list" where
  "unique xs = sort (remdups xs)"

text \<open>
  \<open>np.searchsorted(a, v)\<close> with the default \<open>side='left'\<close>: for a sorted \<open>a\<close>, the
  first index \<open>i\<close> with \<open>v \<le> a[i]\<close> (or \<open>len(a)\<close>), once for each entry of \<open>v\<close>.
\<close>

definition searchsorted1 :: "'a::linorder list \<Rightarrow> 'a \<Rightarrow> int" where
  "searchsorted1 a v = int (length (takeWhile (\<lambda>x. x < v) a))"

definition searchsorted :: "'a::linorder list \<Rightarrow> 'a list \<Rightarrow> int list" where
  "searchsorted a vs = map (searchsorted1 a) vs"

text \<open>\<open>sp.sum\<close> of a boolean mask counts its True entries.\<close>

definition sum_mask :: "bool list \<Rightarrow> nat" where
  "sum_mask m = length (filter id m)"

text \<open>
  Elementwise binary operations broadcast: equal shapes combine pointwise, a one-element
  array is stretched, anything else raises.
\<close>

definition broadcast2 :: "('a \<Rightarrow> 'b \<Rightarrow> 'c) \<Rightarrow> 'a list \<Rightarrow> 'b list \<Rightarrow> error + 'c list" where
  "broadcast2 f xs ys =
     (if length xs = length ys then Inr (map2 f xs ys)
      else if length xs = 1 then Inr (map (f (hd xs)) ys)
      else if length ys = 1 then Inr (map (\<lambda>x. f x (hd ys)) xs)
      else Inl ValueError)"

text \<open>\<open>a[mask] = v\<close>: the mask must have the shape of the array.\<close>

definition assign_masked :: "'a list \<Rightarrow> bool list \<Rightarrow> 'a \<Rightarrow> error + 'a list" where
  "assign_masked a m v =
     (if length m = length a then Inr (map2 (\<lambda>x b. if b then v else x) a m)
      else Inl IndexError)"

text \<open>\<open>a[mask]\<close>: the selected entries, in order.\<close>

definition select_masked :: "'a list \<Rightarrow> bool list \<Rightarrow> error + 'a list" where
  "select_masked a m =
     (if length m = length a then Inr (map fst (filter snd (zip a m)))
      else Inl IndexError)"

text \<open>\<open>sp.amin\<close> and \<open>sp.amax\<close> raise on an empty array.\<close>

fun amin :: "'a::linorder list \<Rightarrow> error + 'a" where
  "amin [] = Inl ValueError"
| "amin (x # xs) = Inr (fold min xs x)"

fun amax :: "'a::linorder list \<Rightarrow> error + 'a" where
  "amax [] = Inl ValueError"
| "amax (x # xs) = Inr (fold max xs x)"

text \<open>
  \<open>np.linspace(start, stop, num)\<close> and \<open>sp.logspace(start, stop, num)\<close> (base 10), over
  the reals. A negative \<open>num\<close> raises.
\<close>

definition linspace :: "real \<Rightarrow> real \<Rightarrow> int \<Rightarrow> error + real list" where
  "linspace start stop num =
     (if num < 0 then Inl ValueError
      else if num = 1 then Inr [start]
      else Inr (map (\<lambda>i. start + real i * ((stop - start) / real (nat num - 1)))
                  [0 ..< nat num]))"

definition logspace :: "real \<Rightarrow> real \<Rightarrow> int \<Rightarrow> error + real list" where
  "logspace start stop num =
     (case linspace start stop num of
        Inl e \<Rightarrow> Inl e
      | Inr ys \<Rightarrow> Inr (map (\<lambda>y. 10 powr y) ys))"

text \<open>\<open>sp.log10\<close> is a real number on positive arguments only.\<close>

definition log10 :: "real \<Rightarrow> error + real" where
  "log10 x = (if 0 < x then Inr (log 10 x) else Inl FloatOutsideModel)"

section \<open>OrdinaryPercolation\<close>

text \<open>
  The cluster labels of one threshold: \<open>sites\<close> and \<open>bonds\<close>, \<open>-1\<close> for an element in no
  invaded cluster.
\<close>

record labels =
  sites :: "int list"
  bonds :: "int list"

text \<open>
  \<open>bond_percolation\<close>, \<open>site_percolation\<close> and \<open>remove_isolated_clusters\<close> are imported
  from \<open>openpnm.topotools\<close>; the algorithm is modelled for any such functions.
\<close>

record topotools =
  bond_percolation :: "(nat \<times> nat) list \<Rightarrow> bool list \<Rightarrow> labels"
  site_percolation :: "(nat \<times> nat) list \<Rightarrow> bool list \<Rightarrow> labels"
  remove_isolated_clusters :: "labels \<Rightarrow> bool list \<Rightarrow> labels"

record op_settings =
  access_limited :: bool
  mode :: string
  pore_entry_pressure_key :: string
  throat_entry_pressure_key :: string

text \<open>
  The arrays of the algorithm object. The two entry-pressure arrays are absent until
  \<open>setup\<close> or \<open>run\<close> copies them from the phase.
\<close>

record ordinary_percolation =
  settings :: op_settings
  pore_invasion_pressure :: "pressure list"
  throat_invasion_pressure :: "pressure list"
  pore_invasion_sequence :: "int list"
  throat_invasion_sequence :: "int list"
  pore_inlets :: "bool list"
  pore_outlets :: "bool list"
  pore_residual :: "bool list"
  throat_residual :: "bool list"
  pore_entry_pressure :: "real list option"
  throat_entry_pressure :: "real list option"

text \<open>\<open>reset\<close>: every array back to its initial value, at its own length.\<close>

definition reset :: "ordinary_percolation \<Rightarrow> ordinary_percolation" where
  "reset s = s\<lparr>
     pore_invasion_pressure := map (\<lambda>_. PInf) (pore_invasion_pressure s),
     throat_invasion_pressure := map (\<lambda>_. PInf) (throat_invasion_pressure s),
     pore_invasion_sequence := map (\<lambda>_. -1) (pore_invasion_pressure s),
     throat_invasion_sequence := map (\<lambda>_. -1) (throat_invasion_pressure s),
     pore_inlets := map (\<lambda>_. False) (pore_invasion_pressure s),
     pore_outlets := map (\<lambda>_. False) (pore_invasion_pressure s),
     pore_residual := map (\<lambda>_. False) (pore_invasion_pressure s),
     throat_residual := map (\<lambda>_. False) (throat_invasion_pressure s)\<rparr>"

text \<open>The \<open>points\<close> argument of \<open>run\<close>: a Python int or an array of pressures.\<close>

datatype points_arg = Count int | Array "pressure list"

text \<open>
  Lines 142-149 and 153-160 of \<open>run\<close>: the thresholds generated from a count, from the
  entry pressures of the active mode and the optional \<open>start\<close> and \<open>stop\<close>.
\<close>

definition generate_points ::
  "real list \<Rightarrow> int \<Rightarrow> real option \<Rightarrow> real option \<Rightarrow> error + pressure list" where
  "generate_points entry num start stop =
     (case (case start of Some a \<Rightarrow> Inr a
            | None \<Rightarrow> (case amin entry of Inl e \<Rightarrow> Inl e | Inr m \<Rightarrow> Inr (m * 0.95))) of
        Inl e \<Rightarrow> Inl e
      | Inr start' \<Rightarrow>
     (case (case stop of Some b \<Rightarrow> Inr b
            | None \<Rightarrow> (case amax entry of Inl e \<Rightarrow> Inl e | Inr m \<Rightarrow> Inr (m * 1.05))) of
        Inl e \<Rightarrow> Inl e
      | Inr stop' \<Rightarrow>
     (case log10 (max 1 start') of
        Inl e \<Rightarrow> Inl e
      | Inr lo \<Rightarrow>
     (case log10 stop' of
        Inl e \<Rightarrow> Inl e
      | Inr hi \<Rightarrow>
     (case logspace lo hi num of
        Inl e \<Rightarrow> Inl e
      | Inr ps \<Rightarrow> Inr (map Fin ps))))))"

definition resolve_points ::
  "real list \<Rightarrow> points_arg \<Rightarrow> real option \<Rightarrow> real option \<Rightarrow> error + pressure list" where
  "resolve_points entry points start stop =
     (case points of
        Count num \<Rightarrow> generate_points entry num start stop
      | Array ps \<Rightarrow> Inr ps)"

text \<open>
  Lines 173-183: the labels of one threshold. The elements of the active mode whose
  entry pressure is at most the threshold are open.
\<close>

definition threshold_labels ::
  "topotools \<Rightarrow> (nat \<times> nat) list \<Rightarrow> ordinary_percolation \<Rightarrow> pressure \<Rightarrow> error + labels" where
  "threshold_labels tt conns s inv_val =
     (case (if mode (settings s) = ''bond''
            then (case throat_entry_pressure s of
                    None \<Rightarrow> Inl (KeyError ''throat.entry_pressure'')
                  | Some ep \<Rightarrow>
                      Inr (bond_percolation tt conns (map (\<lambda>e. Fin e \<le> inv_val) ep)))
            else if mode (settings s) = ''site''
            then (case pore_entry_pressure s of
                    None \<Rightarrow> Inl (KeyError ''pore.entry_pressure'')
                  | Some ep \<Rightarrow>
                      Inr (site_percolation tt conns (map (\<lambda>e. Fin e \<le> inv_val) ep)))
            else Inl UnboundLocalError) of
        Inl e \<Rightarrow> Inl e
      | Inr lab \<Rightarrow>
          Inr (if access_limited (settings s)
               then remove_isolated_clusters tt lab (pore_inlets s)
               else lab))"

text \<open>
  Lines 185-192: the threshold is stored in the elements that are still at infinity and
  carry a non-negative label. The pores are written before the throat mask is computed,
  so an error at the throats leaves the pores updated.
\<close>

definition newly_invaded :: "pressure list \<Rightarrow> int list \<Rightarrow> error + bool list" where
  "newly_invaded pinv lab = broadcast2 (\<lambda>p l. p = PInf \<and> 0 \<le> l) pinv lab"

definition store_threshold ::
  "labels \<Rightarrow> pressure \<Rightarrow> ordinary_percolation \<Rightarrow> error option \<times> ordinary_percolation" where
  "store_threshold lab inv_val s =
     (case newly_invaded (pore_invasion_pressure s) (sites lab) of
        Inl e \<Rightarrow> (Some e, s)
      | Inr pinds \<Rightarrow>
     (case assign_masked (pore_invasion_pressure s) pinds inv_val of
        Inl e \<Rightarrow> (Some e, s)
      | Inr P \<Rightarrow>
     (let s1 = s\<lparr>pore_invasion_pressure := P\<rparr> in
      case newly_invaded (throat_invasion_pressure s1) (bonds lab) of
        Inl e \<Rightarrow> (Some e, s1)
      | Inr tinds \<Rightarrow>
     (case assign_masked (throat_invasion_pressure s1) tinds inv_val of
        Inl e \<Rightarrow> (Some e, s1)
      | Inr T \<Rightarrow> (None, s1\<lparr>throat_invasion_pressure := T\<rparr>)))))"

text \<open>Lines 172-192: the loop over the thresholds, in the order given.\<close>

fun sweep ::
  "topotools \<Rightarrow> (nat \<times> nat) list \<Rightarrow> pressure list \<Rightarrow> ordinary_percolation
     \<Rightarrow> error option \<times> ordinary_percolation" where
  "sweep tt conns [] s = (None, s)"
| "sweep tt conns (inv_val # points) s =
     (case threshold_labels tt conns s inv_val of
        Inl e \<Rightarrow> (Some e, s)
      | Inr lab \<Rightarrow>
          (case store_threshold lab inv_val s of
             (Some e, s') \<Rightarrow> (Some e, s')
           | (None, s') \<Rightarrow> sweep tt conns points s'))"

text \<open>Lines 194-200: the pressures converted to sequence values.\<close>

definition assign_sequence :: "ordinary_percolation \<Rightarrow> ordinary_percolation" where
  "assign_sequence s =
     (let Pinv = pore_invasion_pressure s;
          Tinv = throat_invasion_pressure s;
          Pseq = searchsorted (unique Pinv) Pinv;
          Tseq = searchsorted (unique Tinv) Tinv
      in s\<lparr>pore_invasion_sequence := Pseq, throat_invasion_sequence := Tseq\<rparr>)"

text \<open>
  Lines 137-162: the entry pressures of the active mode are copied from the phase and the
  thresholds resolved; any other mode raises. The copy stays on the object when a later
  statement raises.
\<close>

definition prepare ::
  "(string \<rightharpoonup> real list) \<Rightarrow> points_arg \<Rightarrow> real option \<Rightarrow> real option
     \<Rightarrow> ordinary_percolation \<Rightarrow> (error + pressure list) \<times> ordinary_percolation" where
  "prepare phase points start stop s =
     (if mode (settings s) = ''bond'' then
        (case phase (throat_entry_pressure_key (settings s)) of
           None \<Rightarrow> (Inl (KeyError (throat_entry_pressure_key (settings s))), s)
         | Some ep \<Rightarrow>
             (resolve_points ep points start stop, s\<lparr>throat_entry_pressure := Some ep\<rparr>))
      else if mode (settings s) = ''site'' then
        (case phase (pore_entry_pressure_key (settings s)) of
           None \<Rightarrow> (Inl (KeyError (pore_entry_pressure_key (settings s))), s)
         | Some ep \<Rightarrow>
             (resolve_points ep points start stop, s\<lparr>pore_entry_pressure := Some ep\<rparr>))
      else (Inl PercolationTypeNotSet, s))"

text \<open>
  \<open>run\<close>. The result is the exception raised, if any, and the object as the call leaves
  it.
\<close>

definition run ::
  "topotools \<Rightarrow> (string \<rightharpoonup> real list) \<Rightarrow> (nat \<times> nat) list
     \<Rightarrow> points_arg \<Rightarrow> real option \<Rightarrow> real option
     \<Rightarrow> ordinary_percolation \<Rightarrow> error option \<times> ordinary_percolation" where
  "run tt phase conns points start stop s =
     (case prepare phase points start stop s of
        (Inl e, s1) \<Rightarrow> (Some e, s1)
      | (Inr ps, s1) \<Rightarrow>
          if access_limited (settings s1) \<and> sum_mask (pore_inlets s1) = 0
          then (Some InletsNotSpecified, s1)
          else (case sweep tt conns ps s1 of
                  (Some e, s2) \<Rightarrow> (Some e, s2)
                | (None, s2) \<Rightarrow> (None, assign_sequence s2)))"

text \<open>\<open>results(Pc)\<close>: the occupancy dictionary, and the object after the call.\<close>

record occupancy =
  pore_occupancy :: "real list"
  throat_occupancy :: "real list"

definition results :: "ordinary_percolation \<Rightarrow> pressure \<Rightarrow> occupancy \<times> ordinary_percolation" where
  "results s Pc =
     (let Psatn = map (\<lambda>p. p \<le> Pc) (pore_invasion_pressure s);
          Tsatn = map (\<lambda>p. p \<le> Pc) (throat_invasion_pressure s)
      in (\<lparr>pore_occupancy = map of_bool Psatn, throat_occupancy = map of_bool Tsatn\<rparr>, s))"

text \<open>Lines 13-18 and \<open>__init__\<close>: the default settings and the freshly reset arrays.\<close>

definition default_settings :: op_settings where
  "default_settings =
     \<lparr>access_limited = True, mode = ''bond'',
      pore_entry_pressure_key = ''pore.capillary_pressure'',
      throat_entry_pressure_key = ''throat.capillary_pressure''\<rparr>"

definition init :: "nat \<Rightarrow> nat \<Rightarrow> ordinary_percolation" where
  "init Np Nt =
     \<lparr>settings = default_settings,
      pore_invasion_pressure = replicate Np PInf,
      throat_invasion_pressure = replicate Nt PInf,
      pore_invasion_sequence = replicate Np (-1),
      throat_invasion_sequence = replicate Nt (-1),
      pore_inlets = replicate Np False,
      pore_outlets = replicate Np False,
      pore_residual = replicate Np False,
      throat_residual = replicate Nt False,
      pore_entry_pressure = None,
      throat_entry_pressure = None\<rparr>"

text \<open>
  The Invasion State of the data model: the arrays that \<open>reset\<close> clears.
\<close>

definition invasion_state ::
  "ordinary_percolation \<Rightarrow>
     (pressure list \<times> pressure list) \<times> (int list \<times> int list)
       \<times> (bool list \<times> bool list) \<times> (bool list \<times> bool list)" where
  "invasion_state s =
     ((pore_invasion_pressure s, throat_invasion_pressure s),
      (pore_invasion_sequence s, throat_invasion_sequence s),
      (pore_inlets s, pore_outlets s),
      (pore_residual s, throat_residual s))"

section \<open>A cluster labeler to run the algorithm on\<close>

text \<open>
  Modelled from the spec: the Cluster Labeler (section 4.1) and the Isolated-Cluster
  Filter (section 4.2), which live in \<open>openpnm.topotools\<close> and are not part of the
  sources at hand. The theorems about \<open>run\<close> hold for every labeler; this one serves to
  run the algorithm on concrete networks. A cluster is named by its smallest site.
\<close>

definition join_ends :: "int list \<Rightarrow> nat \<times> nat \<Rightarrow> int list" where
  "join_ends ids c =
     (case c of (a, b) \<Rightarrow>
        if a < length ids \<and> b < length ids
        then (let m = min (ids ! a) (ids ! b) in ids[a := m, b := m])
        else ids)"

definition site_clusters :: "nat \<Rightarrow> (nat \<times> nat) list \<Rightarrow> int list" where
  "site_clusters n open_conns =
     ((\<lambda>ids. fold (\<lambda>c acc. join_ends acc c) open_conns ids) ^^ n) (map int [0 ..< n])"

definition num_sites :: "(nat \<times> nat) list \<Rightarrow> nat" where
  "num_sites conns = fold (\<lambda>c n. max n (Suc (max (fst c) (snd c)))) conns 0"

definition spec_bond_percolation :: "(nat \<times> nat) list \<Rightarrow> bool list \<Rightarrow> labels" where
  "spec_bond_percolation conns open_mask =
     (let open_conns = map fst (filter snd (zip conns open_mask));
          n = num_sites conns;
          ids = site_clusters n open_conns
      in \<lparr>sites = map (\<lambda>i. if list_ex (\<lambda>c. fst c = i \<or> snd c = i) open_conns
                            then ids ! i else -1) [0 ..< n],
          bonds = map2 (\<lambda>c b. if b then ids ! fst c else -1) conns open_mask\<rparr>)"

definition spec_site_percolation :: "(nat \<times> nat) list \<Rightarrow> bool list \<Rightarrow> labels" where
  "spec_site_percolation conns open_mask =
     (let n = length open_mask;
          joins = (\<lambda>c. fst c < n \<and> snd c < n \<and> open_mask ! fst c \<and> open_mask ! snd c);
          ids = site_clusters n (filter joins conns)
      in \<lparr>sites = map (\<lambda>i. if open_mask ! i then ids ! i else -1) [0 ..< n],
          bonds = map (\<lambda>c. if joins c then ids ! fst c else -1) conns\<rparr>)"

definition spec_remove_isolated_clusters :: "labels \<Rightarrow> bool list \<Rightarrow> labels" where
  "spec_remove_isolated_clusters lab inlets =
     (let keep = map fst (filter (\<lambda>(l, i). i \<and> 0 \<le> l) (zip (sites lab) inlets))
      in \<lparr>sites = map (\<lambda>l. if l \<in> set keep then l else -1) (sites lab),
          bonds = map (\<lambda>l. if l \<in> set keep then l else -1) (bonds lab)\<rparr>)"

definition spec_topotools :: topotools where
  "spec_topotools =
     \<lparr>bond_percolation = spec_bond_percolation,
      site_percolation = spec_site_percolation,
      remove_isolated_clusters = spec_remove_isolated_clusters\<rparr>"

text \<open>
  A chain of three pores and two throats, the first throat easy to enter and the second
  hard, with the first pore as the inlet.
\<close>

definition chain_conns :: "(nat \<times> nat) list" where
  "chain_conns = [(0, 1), (1, 2)]"

definition chain_phase :: "string \<rightharpoonup> real list" where
  "chain_phase =
     [''throat.capillary_pressure'' \<mapsto> [2, 5], ''pore.capillary_pressure'' \<mapsto> [2, 2, 5]]"

definition chain :: ordinary_percolation where
  "chain = (init 3 2)\<lparr>pore_inlets := [True, False, False], pore_outlets := [False, False, True]\<rparr>"

text \<open>The chain after \<open>run\<close> with the single threshold 3.\<close>

definition chain_invaded :: ordinary_percolation where
  "chain_invaded =
     chain\<lparr>throat_entry_pressure := Some [2, 5],
           pore_invasion_pressure := [Fin 3, Fin 3, PInf],
           throat_invasion_pressure := [Fin 3, PInf],
           pore_invasion_sequence := [0, 0, 1],
           throat_invasion_sequence := [0, 1]\<rparr>"


definition chain_swept :: ordinary_percolation where
  "chain_swept =
     chain\<lparr>throat_entry_pressure := Some [2, 5],
           pore_invasion_pressure := [Fin 3, Fin 3, Fin 7],
           throat_invasion_pressure := [Fin 3, Fin 7],
           pore_invasion_sequence := [0, 0, 1],
           throat_invasion_sequence := [0, 1]\<rparr>"

subsection \<open>Observations on the sweep\<close>






subsection \<open>is_percolating\<close>

text \<open>
  \<open>create_adjacency_matrix\<close> belongs to the network and \<open>_is_percolating\<close> to the parent
  class \<open>GenericPercolation\<close>; the query is modelled for any such pair. The second is
  named \<open>generic_is_percolating\<close> here.
\<close>

record 'am percolation_tester =
  create_adjacency_matrix :: "bool list \<Rightarrow> 'am"
  generic_is_percolating :: "'am \<Rightarrow> string \<Rightarrow> bool list \<Rightarrow> bool list \<Rightarrow> bool"

text \<open>
  \<open>is_percolating(applied_pressure)\<close>. Beside the answer, the model returns the throat
  masks for which an adjacency matrix was built and connectivity checked, in order.
\<close>

definition is_percolating ::
  "'am percolation_tester \<Rightarrow> ordinary_percolation \<Rightarrow> pressure
     \<Rightarrow> (error + bool) \<times> bool list list" where
  "is_percolating net s applied_pressure =
     (if sum_mask (pore_inlets s) = 0 then (Inl InletsNotSpecified, [])
      else if sum_mask (pore_outlets s) = 0 then (Inl OutletsNotSpecified, [])
      else
        (case select_masked (pore_invasion_pressure s) (pore_outlets s) of
           Inl e \<Rightarrow> (Inl e, [])
         | Inr outlet_pressures \<Rightarrow>
        (case amin outlet_pressures of
           Inl e \<Rightarrow> (Inl e, [])
         | Inr lowest \<Rightarrow>
             if applied_pressure < lowest then (Inr False, [])
             else
               (let mask = map (\<lambda>p. p < applied_pressure) (throat_invasion_pressure s);
                    am = create_adjacency_matrix net mask
                in (Inr (generic_is_percolating net am (mode (settings s))
                           (pore_inlets s) (pore_outlets s)),
                    [mask])))))"

text \<open>
  A tester for the chain: the adjacency matrix is the list of open throats, and the
  cluster labeler above decides whether an inlet and an outlet share a cluster.
\<close>

definition chain_tester :: "(nat \<times> nat) list percolation_tester" where
  "chain_tester =
     \<lparr>create_adjacency_matrix = (\<lambda>mask. map fst (filter snd (zip chain_conns mask))),
      generic_is_percolating = (\<lambda>am m inlets outlets.
         let lab = spec_bond_percolation am (map (\<lambda>_. True) am)
         in list_ex (\<lambda>l. 0 \<le> l \<and> l \<in> set (map fst (filter snd (zip (sites lab) outlets))))
              (map fst (filter snd (zip (sites lab) inlets))))\<rparr>"

text \<open>A phase whose smallest throat entry pressure is below 1.\<close>

definition soft_phase :: "string \<rightharpoonup> real list" where
  "soft_phase = [''throat.capillary_pressure'' \<mapsto> [1 / 2, 2]]"

section \<open>Tools: the labels of pores and throats\<close>

text \<open>
  The two label dictionaries of a \<open>Tools\<close> object, \<open>_pore_info\<close> and \<open>_throat_info\<close>:
  each label is a boolean array with one entry for each pore (throat).
\<close>

record tools =
  pore_info :: "string \<rightharpoonup> bool list"
  throat_info :: "string \<rightharpoonup> bool list"

text \<open>
  \<open>_get_info\<close> with \<open>return_indices=False\<close>, as \<open>_get_indices\<close> calls it: the dictionary
  is found by name (\<open>getattr\<close>) and the label looked up in it.
\<close>

definition element_info :: "tools \<Rightarrow> string \<Rightarrow> error + (string \<rightharpoonup> bool list)" where
  "element_info t element =
     (if element = ''pore'' then Inr (pore_info t)
      else if element = ''throat'' then Inr (throat_info t)
      else Inl AttributeError)"

definition get_info :: "tools \<Rightarrow> string \<Rightarrow> string \<Rightarrow> error + bool list" where
  "get_info t element label =
     (case element_info t element of
        Inl e \<Rightarrow> Inl e
      | Inr d \<Rightarrow> (case d label of None \<Rightarrow> Inl (KeyError label) | Some a \<Rightarrow> Inr a))"

text \<open>
  The loops of \<open>_get_indices\<close>: the array of each label in turn is combined into the
  accumulator; a label that is not in the dictionary raises.
\<close>

fun fold_labels ::
  "('acc \<Rightarrow> bool list \<Rightarrow> error + 'acc) \<Rightarrow> tools \<Rightarrow> string \<Rightarrow> string list \<Rightarrow> 'acc
     \<Rightarrow> error + 'acc" where
  "fold_labels step t element [] acc = Inr acc"
| "fold_labels step t element (item # labels) acc =
     (case get_info t element item of
        Inl e \<Rightarrow> Inl e
      | Inr info \<Rightarrow>
          (case step acc info of
             Inl e \<Rightarrow> Inl e
           | Inr acc' \<Rightarrow> fold_labels step t element labels acc'))"

text \<open>The result of a query: a boolean mask, or the indices of its True entries.\<close>

datatype ind = Mask "bool list" | Indices "nat list"

definition where_true :: "bool list \<Rightarrow> nat list" where
  "where_true m = filter (\<lambda>i. m ! i) [0 ..< length m]"

text \<open>
  \<open>_get_indices\<close>. The counters of 'not_intersection' and 'none' are 64-bit integers
  that change by one for each label; a Python list is too short to make them wrap, so
  they are modelled as unbounded integers. An unknown mode leaves \<open>ind\<close> unbound.
\<close>

definition get_indices ::
  "tools \<Rightarrow> string \<Rightarrow> string list \<Rightarrow> bool \<Rightarrow> string \<Rightarrow> error + ind" where
  "get_indices t element labels return_indices mode' =
     (case
        (if mode' = ''union'' then
           (case get_info t element ''all'' of
              Inl e \<Rightarrow> Inl e
            | Inr every \<Rightarrow>
                fold_labels (\<lambda>union info. broadcast2 (\<or>) union info) t element labels
                  (map (\<lambda>_. False) every))
         else if mode' = ''intersection'' then
           (case get_info t element ''all'' of
              Inl e \<Rightarrow> Inl e
            | Inr every \<Rightarrow>
                fold_labels (\<lambda>intersect info. broadcast2 (\<and>) intersect info) t element labels
                  (map (\<lambda>_. True) every))
         else if mode' = ''not_intersection'' then
           (case get_info t element ''all'' of
              Inl e \<Rightarrow> Inl e
            | Inr every \<Rightarrow>
                (case fold_labels
                        (\<lambda>not_intersect info. broadcast2 (+) not_intersect (map of_bool info))
                        t element labels (map (\<lambda>_. 0 :: int) every) of
                   Inl e \<Rightarrow> Inl e
                 | Inr not_intersect \<Rightarrow> Inr (map (\<lambda>c. c = 1) not_intersect)))
         else if mode' = ''none'' then
           (case get_info t element ''all'' of
              Inl e \<Rightarrow> Inl e
            | Inr every \<Rightarrow>
                (case fold_labels
                        (\<lambda>none info. broadcast2 (-) none (map of_bool info))
                        t element labels (map (\<lambda>_. 0 :: int) every) of
                   Inl e \<Rightarrow> Inl e
                 | Inr none \<Rightarrow> Inr (map (\<lambda>c. c = 0) none)))
         else Inl UnboundLocalError) of
        Inl e \<Rightarrow> Inl e
      | Inr ind \<Rightarrow> Inr (if return_indices then Indices (where_true ind) else Mask ind))"

text \<open>The \<open>labels\<close> argument: one string, which is wrapped in a list, or a list.\<close>

datatype labels_arg = Label string | Labels "string list"

fun as_list :: "labels_arg \<Rightarrow> string list" where
  "as_list (Label l) = [l]"
| "as_list (Labels ls) = ls"

definition pores :: "tools \<Rightarrow> labels_arg \<Rightarrow> bool \<Rightarrow> string \<Rightarrow> error + ind" where
  "pores t labels return_indices mode' =
     get_indices t ''pore'' (as_list labels) return_indices mode'"

definition throats :: "tools \<Rightarrow> labels_arg \<Rightarrow> bool \<Rightarrow> string \<Rightarrow> error + ind" where
  "throats t labels return_indices mode' =
     get_indices t ''throat'' (as_list labels) return_indices mode'"

definition get_pore_indices :: "tools \<Rightarrow> labels_arg \<Rightarrow> bool \<Rightarrow> string \<Rightarrow> error + ind" where
  "get_pore_indices t labels return_indices mode' = pores t labels return_indices mode'"

definition get_throat_indices :: "tools \<Rightarrow> labels_arg \<Rightarrow> bool \<Rightarrow> string \<Rightarrow> error + ind" where
  "get_throat_indices t labels return_indices mode' = throats t labels return_indices mode'"

text \<open>\<open>sp.sum\<close> of the query result: the number of True entries of a mask.\<close>

fun sum_ind :: "ind \<Rightarrow> nat" where
  "sum_ind (Mask m) = sum_mask m"
| "sum_ind (Indices is) = sum_list is"

definition num_pores :: "tools \<Rightarrow> labels_arg \<Rightarrow> string \<Rightarrow> error + nat" where
  "num_pores t labels mode' =
     (case get_pore_indices t (Labels (as_list labels)) False mode' of
        Inl e \<Rightarrow> Inl e
      | Inr temp \<Rightarrow> Inr (sum_ind temp))"

definition num_throats :: "tools \<Rightarrow> labels_arg \<Rightarrow> string \<Rightarrow> error + nat" where
  "num_throats t labels mode' =
     (case get_throat_indices t (Labels (as_list labels)) False mode' of
        Inl e \<Rightarrow> Inl e
      | Inr temp \<Rightarrow> Inr (sum_ind temp))"

text \<open>Element \<open>i\<close> carries label \<open>l\<close> when the array of \<open>l\<close> is True at \<open>i\<close>.\<close>

definition carries :: "(string \<rightharpoonup> bool list) \<Rightarrow> nat \<Rightarrow> string \<Rightarrow> bool" where
  "carries d i l = (case d l of None \<Rightarrow> False | Some a \<Rightarrow> a ! i)"

text \<open>Four pores and three throats with the labels 'top' and 'front'.\<close>

definition small_net :: tools where
  "small_net =
     \<lparr>pore_info = [''all'' \<mapsto> [True, True, True, True],
                   ''top'' \<mapsto> [True, True, False, False],
                   ''front'' \<mapsto> [False, True, True, False]],
      throat_info = [''all'' \<mapsto> [True, True, True],
                     ''top'' \<mapsto> [True, False, False],
                     ''front'' \<mapsto> [True, True, False]]\<rparr>"

section \<open>RelativePermeability\<close>

text \<open>
  Python dictionaries keep their keys in insertion order and \<open>update\<close> overwrites in
  place: association lists with \<open>AList.update\<close>. A missing key raises.
\<close>

definition ebind :: "error + 'a \<Rightarrow> ('a \<Rightarrow> error + 'b) \<Rightarrow> error + 'b" where
  "ebind m f = (case m of Inl e \<Rightarrow> Inl e | Inr x \<Rightarrow> f x)"

definition dict_get :: "(string \<times> 'v) list \<Rightarrow> string \<Rightarrow> error + 'v" where
  "dict_get d k = (case map_of d k of None \<Rightarrow> Inl (KeyError k) | Some v \<Rightarrow> Inr v)"

text \<open>\<open>s[i]\<close> on a string: the one-character string at \<open>i\<close>.\<close>

definition str_at :: "string \<Rightarrow> nat \<Rightarrow> error + string" where
  "str_at s i = (if i < length s then Inr [s ! i] else Inl IndexError)"

text \<open>\<open>np.any\<close>: some entry is not zero.\<close>

definition np_any :: "real list \<Rightarrow> bool" where
  "np_any xs = list_ex (\<lambda>x. x \<noteq> 0) xs"

text \<open>\<open>[xs[x] for x in range(0, len(xs), 2)]\<close>: every other entry.\<close>

fun every_other :: "'a list \<Rightarrow> 'a list" where
  "every_other [] = []"
| "every_other [x] = [x]"
| "every_other (x # y # xs) = x # every_other xs"

text \<open>
  The list objects of the caller live in a store; \<open>setup\<close> receives the address of one
  and keeps that address in \<open>settings['input_vect']\<close>.
\<close>

type_synonym addr = nat

type_synonym heap = "addr \<rightharpoonup> string list"

text \<open>
  One flow solve: the phase, the conduit conductance it was set up with (none for the
  single-phase baseline, else the combination mode and the occupancy of the phase), the
  pores of the two boundary conditions and the pores between which the effective
  permeability is taken.
\<close>

datatype phase_id = Wp | Nwp

record solve_request =
  sr_phase :: phase_id
  sr_conduit :: "(string \<times> occupancy) option"
  sr_high :: "nat list"
  sr_low :: "nat list"
  sr_inlets :: "nat list"
  sr_outlets :: "nat list"

text \<open>
  The collaborators, none of them among the sources at hand: the network's label
  lookup, the order in which Python iterates a set of keys, the invasion percolation
  algorithm (\<open>set_inlets\<close>, \<open>run\<close>, \<open>results(Snwp)\<close>) on its own state, the Stokes flow
  solve with its effective permeability, and the division of two permeabilities.
\<close>

record ('ip, 'k) rp_env =
  network_pores :: "string \<Rightarrow> nat list"
  iter_set :: "string list \<Rightarrow> string list"
  ip_new :: 'ip
  ip_set_inlets :: "'ip \<Rightarrow> nat list \<Rightarrow> 'ip"
  ip_run :: "'ip \<Rightarrow> 'ip"
  ip_results :: "'ip \<Rightarrow> real \<Rightarrow> occupancy"
  stokes_keff :: "solve_request \<Rightarrow> 'k"
  ratio :: "'k \<Rightarrow> 'k \<Rightarrow> 'k"

text \<open>
  The settings of the algorithm and the occupancies written on the two phases. Two
  fields record what the code does without storing it: \<open>flow_solves\<close>, the Stokes solves
  in the order they are run, and \<open>swept\<close>, the axis pairs in the order the sweep takes
  them.
\<close>

record 'k relperm =
  input_vect :: "addr option"
  conduit_mode :: string
  BP_1 :: "(string \<times> string) list"
  BP_2 :: "(string \<times> string) list"
  inv_inlets :: "(string \<times> string) list"
  flow_inlets :: "(string \<times> string) list"
  flow_outlets :: "(string \<times> string) list"
  sat :: "(string \<times> real list) list"
  relperm_wp :: "(string \<times> 'k list) list"
  relperm_nwp :: "(string \<times> 'k list) list"
  perm_wp :: "(string \<times> 'k) list"
  perm_nwp :: "(string \<times> 'k) list"
  wp_occupancy :: "occupancy option"
  nwp_occupancy :: "occupancy option"
  flow_solves :: "solve_request list"
  swept :: "string list"

text \<open>Lines 14-28: the settings of a new object.\<close>

definition new_relperm :: "'k relperm" where
  "new_relperm =
     \<lparr>input_vect = None, conduit_mode = ''strict'',
      BP_1 = [], BP_2 = [], inv_inlets = [], flow_inlets = [], flow_outlets = [],
      sat = [], relperm_wp = [], relperm_nwp = [], perm_wp = [], perm_nwp = [],
      wp_occupancy = None, nwp_occupancy = None, flow_solves = [], swept = []\<rparr>"

definition inlet_dict :: "(string \<times> string) list" where
  "inlet_dict = [(''x'', ''left''), (''y'', ''front''), (''z'', ''top'')]"

definition outlet_dict :: "(string \<times> string) list" where
  "outlet_dict = [(''x'', ''right''), (''y'', ''back''), (''z'', ''bottom'')]"

text \<open>Lines 52-58: the boundary labels of one axis pair.\<close>

definition register_pair :: "string \<Rightarrow> 'k relperm \<Rightarrow> error + 'k relperm" where
  "register_pair pair st =
     ebind (str_at pair 0) (\<lambda>inv_axis.
     ebind (str_at pair 1) (\<lambda>flow.
     ebind (dict_get inlet_dict flow) (\<lambda>flow_in.
     ebind (dict_get outlet_dict flow) (\<lambda>flow_out.
     ebind (dict_get inlet_dict inv_axis) (\<lambda>inv_in.
     Inr (st\<lparr>BP_1 := AList.update flow flow_in (BP_1 st),
              BP_2 := AList.update flow flow_out (BP_2 st),
              inv_inlets := AList.update inv_axis inv_in (inv_inlets st),
              flow_inlets := AList.update flow flow_in (flow_inlets st),
              flow_outlets := AList.update flow flow_out (flow_outlets st)\<rparr>))))))"

fun register_pairs :: "string list \<Rightarrow> 'k relperm \<Rightarrow> error + 'k relperm" where
  "register_pairs [] st = Inr st"
| "register_pairs (pair # pairs) st = ebind (register_pair pair st) (register_pairs pairs)"

text \<open>Lines 123-136: the two single-phase baselines of one flow direction.\<close>

definition baseline ::
  "('ip, 'k) rp_env \<Rightarrow> (string \<times> nat list) list \<Rightarrow> (string \<times> nat list) list
     \<Rightarrow> string \<Rightarrow> 'k relperm \<Rightarrow> error + 'k relperm" where
  "baseline env Finlets_init Foutlets_init axis st =
     ebind (dict_get (BP_1 st) axis) (\<lambda>bp1.
     ebind (dict_get (BP_2 st) axis) (\<lambda>bp2.
     ebind (dict_get Finlets_init axis) (\<lambda>fin.
     ebind (dict_get Foutlets_init axis) (\<lambda>fout.
       let solve_wp = \<lparr>sr_phase = Wp, sr_conduit = None,
                        sr_high = network_pores env bp1, sr_low = network_pores env bp2,
                        sr_inlets = fin, sr_outlets = fout\<rparr>;
           solve_nwp = solve_wp\<lparr>sr_phase := Nwp\<rparr>
       in Inr (st\<lparr>perm_wp := AList.update axis (stokes_keff env solve_wp) (perm_wp st),
                   perm_nwp := AList.update axis (stokes_keff env solve_nwp) (perm_nwp st),
                   flow_solves := flow_solves st @ [solve_wp, solve_nwp]\<rparr>)))))"

fun baselines ::
  "('ip, 'k) rp_env \<Rightarrow> (string \<times> nat list) list \<Rightarrow> (string \<times> nat list) list
     \<Rightarrow> string list \<Rightarrow> 'k relperm \<Rightarrow> error + 'k relperm" where
  "baselines env Finlets_init Foutlets_init [] st = Inr st"
| "baselines env Finlets_init Foutlets_init (axis # K_dir) st =
     ebind (baseline env Finlets_init Foutlets_init axis st)
       (baselines env Finlets_init Foutlets_init K_dir)"

text \<open>
  The three lists that grow along the saturation sweep of one axis pair.
\<close>

record 'k curve =
  curve_relperm_wp :: "'k list"
  curve_relperm_nwp :: "'k list"
  Snwparr :: "real list"

definition complement :: "occupancy \<Rightarrow> occupancy" where
  "complement occ =
     \<lparr>pore_occupancy = map (\<lambda>x. 1 - x) (pore_occupancy occ),
      throat_occupancy = map (\<lambda>x. 1 - x) (throat_occupancy occ)\<rparr>"

text \<open>Lines 151-182: a saturation at which some throat is invaded.\<close>

definition invaded_point ::
  "('ip, 'k) rp_env \<Rightarrow> string \<Rightarrow> (string \<times> nat list) list \<Rightarrow> (string \<times> nat list) list
     \<Rightarrow> real \<Rightarrow> occupancy \<Rightarrow> 'k curve \<times> 'k relperm \<Rightarrow> error + 'k curve \<times> 'k relperm" where
  "invaded_point env flow Finlets_init Foutlets_init Snw res1 cs =
     (case cs of (c, st) \<Rightarrow>
     ebind (dict_get (BP_1 st) flow) (\<lambda>bp1.
     ebind (dict_get (BP_2 st) flow) (\<lambda>bp2.
     ebind (dict_get Finlets_init flow) (\<lambda>fin.
     ebind (dict_get Foutlets_init flow) (\<lambda>fout.
     ebind (dict_get (perm_wp st) flow) (\<lambda>K_wp.
     ebind (dict_get (perm_nwp st) flow) (\<lambda>K_nwp.
       let solve_wp = \<lparr>sr_phase = Wp,
                        sr_conduit = Some (conduit_mode st, complement res1),
                        sr_high = network_pores env bp1, sr_low = network_pores env bp2,
                        sr_inlets = fin, sr_outlets = fout\<rparr>;
           solve_nwp = solve_wp\<lparr>sr_phase := Nwp,
                                 sr_conduit := Some (conduit_mode st, res1)\<rparr>;
           Keff_mp_wp = stokes_keff env solve_wp;
           Keff_mp_nwp = stokes_keff env solve_nwp
       in Inr (c\<lparr>curve_relperm_wp := curve_relperm_wp c @ [ratio env Keff_mp_wp K_wp],
                  curve_relperm_nwp := curve_relperm_nwp c @ [ratio env Keff_mp_nwp K_nwp],
                  Snwparr := Snwparr c @ [Snw]\<rparr>,
               st\<lparr>nwp_occupancy := Some res1,
                   wp_occupancy := Some (complement res1),
                   flow_solves := flow_solves st @ [solve_wp, solve_nwp]\<rparr>))))))))"

text \<open>
  Lines 147-187: one target saturation. The three dictionary entries of the axis pair
  are rewritten after every point, invaded or not.
\<close>

definition saturation_point ::
  "('ip, 'k) rp_env \<Rightarrow> 'ip \<Rightarrow> string \<Rightarrow> string
     \<Rightarrow> (string \<times> nat list) list \<Rightarrow> (string \<times> nat list) list
     \<Rightarrow> real \<Rightarrow> 'k curve \<times> 'k relperm \<Rightarrow> error + 'k curve \<times> 'k relperm" where
  "saturation_point env ip pair flow Finlets_init Foutlets_init Snw cs =
     (let res1 = ip_results env ip Snw;
          occ_ts = throat_occupancy res1
      in ebind (if np_any occ_ts
                then invaded_point env flow Finlets_init Foutlets_init Snw res1 cs
                else Inr cs)
           (\<lambda>(c, st).
              Inr (c, st\<lparr>relperm_wp := AList.update pair (curve_relperm_wp c) (relperm_wp st),
                         relperm_nwp := AList.update pair (curve_relperm_nwp c) (relperm_nwp st),
                         sat := AList.update pair (Snwparr c) (sat st)\<rparr>)))"

fun saturation_sweep ::
  "('ip, 'k) rp_env \<Rightarrow> 'ip \<Rightarrow> string \<Rightarrow> string
     \<Rightarrow> (string \<times> nat list) list \<Rightarrow> (string \<times> nat list) list
     \<Rightarrow> real list \<Rightarrow> 'k curve \<times> 'k relperm \<Rightarrow> error + 'k curve \<times> 'k relperm" where
  "saturation_sweep env ip pair flow Finlets_init Foutlets_init [] cs = Inr cs"
| "saturation_sweep env ip pair flow Finlets_init Foutlets_init (Snw # Sarr) cs =
     ebind (saturation_point env ip pair flow Finlets_init Foutlets_init Snw cs)
       (saturation_sweep env ip pair flow Finlets_init Foutlets_init Sarr)"

text \<open>
  Lines 138-187: the axis pairs in the order of the list. The invasion algorithm is one
  object, run again for each pair.
\<close>

fun axis_sweep ::
  "('ip, 'k) rp_env \<Rightarrow> (string \<times> nat list) list
     \<Rightarrow> (string \<times> nat list) list \<Rightarrow> (string \<times> nat list) list
     \<Rightarrow> real list \<Rightarrow> string list \<Rightarrow> 'ip \<times> 'k relperm \<Rightarrow> error + 'ip \<times> 'k relperm" where
  "axis_sweep env Iinlets Finlets_init Foutlets_init Sarr [] is = Inr is"
| "axis_sweep env Iinlets Finlets_init Foutlets_init Sarr (pair # pairs) is =
     (case is of (ip, st) \<Rightarrow>
     ebind (str_at pair 0) (\<lambda>invasion.
     ebind (str_at pair 1) (\<lambda>flow.
     ebind (dict_get Iinlets invasion) (\<lambda>inlets.
       let ip' = ip_run env (ip_set_inlets env ip inlets);
           c = \<lparr>curve_relperm_wp = [], curve_relperm_nwp = [], Snwparr = []\<rparr>
       in ebind (saturation_sweep env ip' pair flow Finlets_init Foutlets_init Sarr
                   (c, st\<lparr>swept := swept st @ [pair]\<rparr>))
            (\<lambda>(c', st'). axis_sweep env Iinlets Finlets_init Foutlets_init Sarr pairs
                            (ip', st'))))))"

text \<open>
  \<open>setup_ip_algs\<close>. The list of axis pairs is read through the stored address.
\<close>

definition setup_ip_algs ::
  "('ip, 'k) rp_env \<Rightarrow> heap \<Rightarrow> 'k relperm \<Rightarrow> error + 'k relperm" where
  "setup_ip_algs env h st =
     (let pores_of = map (\<lambda>(axis, label). (axis, network_pores env label));
          Iinlets_init = pores_of (inv_inlets st);
          Iinlets = map (\<lambda>(key, ps). (key, every_other ps)) Iinlets_init;
          Foutlets_init = pores_of (flow_outlets st);
          Finlets_init = pores_of (flow_inlets st);
          K_dir = iter_set env (map fst (flow_inlets st));
          st0 = st\<lparr>wp_occupancy := None, nwp_occupancy := None\<rparr>
      in ebind (baselines env Finlets_init Foutlets_init K_dir st0) (\<lambda>st1.
         ebind (linspace 0 1 10) (\<lambda>Sarr.
         ebind (case input_vect st1 of
                  None \<Rightarrow> Inl (KeyError ''input_vect'')
                | Some a \<Rightarrow> (case h a of None \<Rightarrow> Inl AttributeError | Some pairs \<Rightarrow> Inr pairs))
           (\<lambda>pairs.
         ebind (axis_sweep env Iinlets Finlets_init Foutlets_init Sarr pairs (ip_new env, st1))
           (\<lambda>(ip, st2). Inr st2)))))"

text \<open>
  \<open>RelativePermeability.setup(input_vect)\<close>, here \<open>relperm_setup\<close>: the list at the
  given address is sorted in place, its address stored, the boundary labels registered
  and the sweep run. The result is the store after the call and either the exception
  or the settings; the settings written before an exception are not kept.
\<close>

definition relperm_setup ::
  "('ip, 'k) rp_env \<Rightarrow> addr \<Rightarrow> heap \<Rightarrow> 'k relperm \<Rightarrow> heap \<times> (error + 'k relperm)" where
  "relperm_setup env vect h st =
     (case h vect of
        None \<Rightarrow> (h, Inl AttributeError)
      | Some pairs \<Rightarrow>
          (let h' = h(vect \<mapsto> sort pairs);
               st1 = st\<lparr>input_vect := Some vect\<rparr>
           in (h', ebind (register_pairs (sort pairs) st1) (setup_ip_algs env h'))))"

text \<open>
  An axis pair the sweep can take: two letters among x, y and z. The keys of a
  dictionary, and settings in which every registered flow direction has its boundary
  labels.
\<close>

definition valid_pair :: "string \<Rightarrow> bool" where
  "valid_pair pair =
     (2 \<le> length pair \<and> [pair ! 0] \<in> {''x'', ''y'', ''z''} \<and> [pair ! 1] \<in> {''x'', ''y'', ''z''})"

definition keys :: "('k \<times> 'v) list \<Rightarrow> 'k set" where
  "keys d = fst ` set d"

definition flow_ready :: "'k relperm \<Rightarrow> string \<Rightarrow> bool" where
  "flow_ready st flow =
     (flow \<in> keys (BP_1 st) \<and> flow \<in> keys (BP_2 st)
      \<and> flow \<in> keys (flow_inlets st) \<and> flow \<in> keys (flow_outlets st))"

definition consistent :: "'k relperm \<Rightarrow> bool" where
  "consistent st = (\<forall>f \<in> keys (flow_inlets st). flow_ready st f)"

text \<open>What a flow solve along \<open>flow\<close> looks up, without and with the baselines.\<close>

definition solvable ::
  "'k relperm \<Rightarrow> (string \<times> nat list) list \<Rightarrow> (string \<times> nat list) list \<Rightarrow> string \<Rightarrow> bool" where
  "solvable st Fi Fo flow =
     (flow \<in> keys (BP_1 st) \<and> flow \<in> keys (BP_2 st) \<and> flow \<in> keys Fi \<and> flow \<in> keys Fo)"

definition measurable ::
  "'k relperm \<Rightarrow> (string \<times> nat list) list \<Rightarrow> (string \<times> nat list) list \<Rightarrow> string \<Rightarrow> bool" where
  "measurable st Fi Fo flow =
     (solvable st Fi Fo flow \<and> flow \<in> keys (perm_wp st) \<and> flow \<in> keys (perm_nwp st))"

text \<open>
  Collaborators to run the sweep on: two boundary pores for every label, an invasion
  algorithm that remembers its inlets and invades the single throat from saturation 1/2
  on, a flow solve whose permeability is 2 for the wetting phase and 4 for the other,
  and real division.
\<close>

definition toy_env :: "(nat list, real) rp_env" where
  "toy_env =
     \<lparr>network_pores = (\<lambda>label. [0, 1]),
      iter_set = remdups,
      ip_new = [],
      ip_set_inlets = (\<lambda>ip inlets. inlets),
      ip_run = (\<lambda>ip. ip),
      ip_results = (\<lambda>ip Snw. \<lparr>pore_occupancy = [of_bool (0 < Snw), of_bool (1 / 2 \<le> Snw)],
                               throat_occupancy = [of_bool (1 / 2 \<le> Snw)]\<rparr>),
      stokes_keff = (\<lambda>request. case sr_phase request of Wp \<Rightarrow> 2 | Nwp \<Rightarrow> 4),
      ratio = (\<lambda>k b. k / b)\<rparr>"

text \<open>Settings with the flow direction y registered and its baselines taken.\<close>

definition toy_ready :: "real relperm" where
  "toy_ready =
     new_relperm\<lparr>BP_1 := [(''y'', ''front'')], BP_2 := [(''y'', ''back'')],
                 perm_wp := [(''y'', 2)], perm_nwp := [(''y'', 4)]\<rparr>"

definition empty_curve :: "real curve" where
  "empty_curve = \<lparr>curve_relperm_wp = [], curve_relperm_nwp = [], Snwparr = []\<rparr>"

section \<open>Running the chain\<close>

lemma chain_prepare:
  "prepare chain_phase (Array ps) start stop chain
     = (Inr ps, chain\<lparr>throat_entry_pressure := Some [2, 5]\<rparr>)"
  by (simp add: prepare_def chain_def init_def default_settings_def chain_phase_def
      resolve_points_def)

lemma chain_sweep:
  "sweep spec_topotools chain_conns [Fin 3] (chain\<lparr>throat_entry_pressure := Some [2, 5]\<rparr>)
     = (None, chain\<lparr>throat_entry_pressure := Some [2, 5],
                    pore_invasion_pressure := [Fin 3, Fin 3, PInf],
                    throat_invasion_pressure := [Fin 3, PInf]\<rparr>)"
  by code_simp

lemma chain_sequence:
  "assign_sequence (chain\<lparr>throat_entry_pressure := Some [2, 5],
                          pore_invasion_pressure := [Fin 3, Fin 3, PInf],
                          throat_invasion_pressure := [Fin 3, PInf]\<rparr>) = chain_invaded"
  by code_simp

lemma chain_fields:
  "access_limited (settings chain)" "sum_mask (pore_inlets chain) = 1"
  "mode (settings chain) = ''bond''"
  by (simp_all add: chain_def init_def default_settings_def sum_mask_def)

lemma chain_run:
  "run spec_topotools chain_phase chain_conns (Array [Fin 3]) None None chain
     = (None, chain_invaded)"
  by (simp add: run_def chain_prepare chain_sweep chain_sequence chain_fields del: sweep.simps)






section \<open>Occupancy queries\<close>

text \<open>
  C3: \<open>results(Pc)\<close> returns pore and throat occupancies that are 1.0 exactly where the
  invasion pressure is at most \<open>Pc\<close> and 0.0 elsewhere, leaves the object as it was, and
  is monotonic: for \<open>p1 < p2\<close> every pore and throat occupied at \<open>p1\<close> is occupied at
  \<open>p2\<close>.
\<close>

theorem results_occupancy:
  "fst (results s Pc) =
     \<lparr>pore_occupancy = map (\<lambda>p. if p \<le> Pc then 1 else 0) (pore_invasion_pressure s),
      throat_occupancy = map (\<lambda>p. if p \<le> Pc then 1 else 0) (throat_invasion_pressure s)\<rparr>
   \<and> snd (results s Pc) = s
   \<and> (p1 < p2 \<longrightarrow>
        (\<forall>i < length (pore_invasion_pressure s).
           pore_occupancy (fst (results s p1)) ! i = 1
             \<longrightarrow> pore_occupancy (fst (results s p2)) ! i = 1)
      \<and> (\<forall>i < length (throat_invasion_pressure s).
           throat_occupancy (fst (results s p1)) ! i = 1
             \<longrightarrow> throat_occupancy (fst (results s p2)) ! i = 1))"
proof -
  have mono: "of_bool (p \<le> p1) = (1::real) \<Longrightarrow> p1 < p2 \<Longrightarrow> of_bool (p \<le> p2) = (1::real)"
    for p :: pressure
    by (cases "p \<le> p1") auto
  show ?thesis
    by (auto simp: results_def Let_def of_bool_def dest: mono)
qed

theorem results_occupancy_witness:
  "Fin 3 < Fin 7
   \<and> 0 < length (pore_invasion_pressure chain_invaded)
   \<and> pore_occupancy (fst (results chain_invaded (Fin 3))) ! 0 = 1
   \<and> pore_occupancy (fst (results chain_invaded (Fin 7))) ! 0 = 1
   \<and> 0 < length (throat_invasion_pressure chain_invaded)
   \<and> throat_occupancy (fst (results chain_invaded (Fin 3))) ! 0 = 1
   \<and> throat_occupancy (fst (results chain_invaded (Fin 7))) ! 0 = 1
   \<and> fst (results chain_invaded (Fin 3))
       = \<lparr>pore_occupancy = [1, 1, 0], throat_occupancy = [1, 0]\<rparr>"
  using results_occupancy [of chain_invaded "Fin 3" "Fin 3" "Fin 7"]
  by (simp add: chain_invaded_def chain_def init_def)

section \<open>Invasion sequence\<close>



lemma run_completed:
  assumes "run tt phase conns points start stop s = (None, s')"
  obtains s2 where "s' = assign_sequence s2"
  using assms
  by (auto simp: run_def split: prod.splits sum.splits if_splits option.splits)






text \<open>
  C1: after \<open>run\<close>, every pore and throat whose invasion pressure is still infinite
  should have the invasion sequence -1. The code ranks infinity with the other
  pressures: on the chain swept with the single threshold 3, the last pore and the last
  throat are never invaded and both get the sequence number 1.
\<close>

theorem never_invaded_sequence_is_a_rank:
  "fst (run spec_topotools chain_phase chain_conns (Array [Fin 3]) None None chain) = None
   \<and> pore_invasion_pressure
        (snd (run spec_topotools chain_phase chain_conns (Array [Fin 3]) None None chain)) ! 2
       = PInf
   \<and> pore_invasion_sequence
        (snd (run spec_topotools chain_phase chain_conns (Array [Fin 3]) None None chain)) ! 2
       = 1
   \<and> throat_invasion_pressure
        (snd (run spec_topotools chain_phase chain_conns (Array [Fin 3]) None None chain)) ! 1
       = PInf
   \<and> throat_invasion_sequence
        (snd (run spec_topotools chain_phase chain_conns (Array [Fin 3]) None None chain)) ! 1
       = 1"
  by (simp add: chain_run) (simp add: chain_invaded_def chain_def init_def)

text \<open>
  More generally, no entry of either sequence array is negative once \<open>run\<close> has
  completed, whatever was invaded.
\<close>

lemma run_sequence_nonnegative:
  assumes "run tt phase conns points start stop s = (None, s')"
  shows "(\<forall>q \<in> set (pore_invasion_sequence s'). 0 \<le> q)
       \<and> (\<forall>q \<in> set (throat_invasion_sequence s'). 0 \<le> q)"
proof -
  from assms obtain s2 where "s' = assign_sequence s2"
    by (rule run_completed)
  then show ?thesis
    by (auto simp: assign_sequence_def Let_def searchsorted_def searchsorted1_def)
qed

section \<open>Errors of run\<close>

lemma sum_mask_zero: "sum_mask m = 0 \<longleftrightarrow> True \<notin> set m"
  by (induction m) (auto simp: sum_mask_def)

lemma prepare_invasion_state:
  "invasion_state (snd (prepare phase points start stop s)) = invasion_state s"
  by (simp add: prepare_def invasion_state_def split: option.splits)

lemma prepare_settings:
  "settings (snd (prepare phase points start stop s)) = settings s"
  "pore_inlets (snd (prepare phase points start stop s)) = pore_inlets s"
  by (simp_all add: prepare_def split: option.splits)

text \<open>
  C4: \<open>run\<close> raises whenever the mode is neither 'bond' nor 'site', and whenever
  \<open>access_limited\<close> is true while the \<open>pore.inlets\<close> mask is all false; in both cases
  the invasion state is as it was before the call.
\<close>

theorem run_raises:
  "(mode (settings s) \<noteq> ''bond'' \<and> mode (settings s) \<noteq> ''site'' \<longrightarrow>
      fst (run tt phase conns points start stop s) = Some PercolationTypeNotSet
      \<and> invasion_state (snd (run tt phase conns points start stop s)) = invasion_state s)
   \<and> (access_limited (settings s) \<and> True \<notin> set (pore_inlets s) \<longrightarrow>
      fst (run tt phase conns points start stop s) \<noteq> None
      \<and> invasion_state (snd (run tt phase conns points start stop s)) = invasion_state s)"
proof (intro conjI impI)
  assume m: "mode (settings s) \<noteq> ''bond'' \<and> mode (settings s) \<noteq> ''site''"
  then have p: "prepare phase points start stop s = (Inl PercolationTypeNotSet, s)"
    by (simp add: prepare_def)
  show "fst (run tt phase conns points start stop s) = Some PercolationTypeNotSet"
    by (simp add: run_def p)
  show "invasion_state (snd (run tt phase conns points start stop s)) = invasion_state s"
    by (simp add: run_def p)
next
  assume a: "access_limited (settings s) \<and> True \<notin> set (pore_inlets s)"
  obtain r s1 where p: "prepare phase points start stop s = (r, s1)"
    by (cases "prepare phase points start stop s")
  have s1: "invasion_state s1 = invasion_state s" "settings s1 = settings s"
    "pore_inlets s1 = pore_inlets s"
    using prepare_invasion_state [of phase points start stop s]
      prepare_settings [of phase points start stop s] p by simp_all
  have stop: "access_limited (settings s1) \<and> sum_mask (pore_inlets s1) = 0"
    using a s1 by (simp add: sum_mask_zero)
  show "fst (run tt phase conns points start stop s) \<noteq> None"
    using stop by (cases r) (simp_all add: run_def p)
  show "invasion_state (snd (run tt phase conns points start stop s)) = invasion_state s"
    using stop s1 by (cases r) (simp_all add: run_def p)
qed

theorem run_raises_witness:
  "mode (settings (chain\<lparr>settings := default_settings\<lparr>mode := ''invasion''\<rparr>\<rparr>)) \<noteq> ''bond''
   \<and> mode (settings (chain\<lparr>settings := default_settings\<lparr>mode := ''invasion''\<rparr>\<rparr>)) \<noteq> ''site''
   \<and> fst (run spec_topotools chain_phase chain_conns (Count 25) None None
            (chain\<lparr>settings := default_settings\<lparr>mode := ''invasion''\<rparr>\<rparr>))
       = Some PercolationTypeNotSet
   \<and> access_limited (settings (init 3 2))
   \<and> True \<notin> set (pore_inlets (init 3 2))
   \<and> fst (run spec_topotools chain_phase chain_conns (Array [Fin 3]) None None (init 3 2))
       = Some InletsNotSpecified
   \<and> invasion_state (snd (run spec_topotools chain_phase chain_conns (Array [Fin 3]) None None
                            (init 3 2)))
       = invasion_state (init 3 2)"
  using run_raises [of "chain\<lparr>settings := default_settings\<lparr>mode := ''invasion''\<rparr>\<rparr>"
      spec_topotools chain_phase chain_conns "Count 25" None None]
    run_raises [of "init 3 2" spec_topotools chain_phase chain_conns "Array [Fin 3]" None None]
  by (simp add: run_def prepare_def init_def default_settings_def chain_phase_def
      resolve_points_def sum_mask_def)

section \<open>First invaded wins\<close>



















section \<open>Percolation query\<close>

lemma amin_Min: "xs \<noteq> [] \<Longrightarrow> amin xs = Inr (Min (set xs))"
  by (cases xs) (simp_all add: Min.set_eq_fold [symmetric] del: set_simps)

lemma amax_Max: "xs \<noteq> [] \<Longrightarrow> amax xs = Inr (Max (set xs))"
  by (cases xs) (simp_all add: Max.set_eq_fold [symmetric] del: set_simps)

lemma set_select:
  "length m = length a \<Longrightarrow>
     set (map fst (filter snd (zip a m))) = {a ! i | i. i < length a \<and> m ! i}"
  by (auto simp: set_zip image_iff) force

lemma sum_mask_pos: "sum_mask m \<noteq> 0 \<Longrightarrow> \<exists>i < length m. m ! i"
  by (metis (full_types) in_set_conv_nth sum_mask_zero)

text \<open>
  C5: with inlets and outlets configured, \<open>is_percolating(applied_pressure)\<close> returns
  False without any connectivity computation when the smallest invasion pressure of the
  outlet pores exceeds the applied pressure; otherwise the answer is that of the
  connectivity check on the throat mask \<open>invasion_pressure < applied_pressure\<close>, with a
  strict inequality.
\<close>

theorem is_percolating_two_tier:
  assumes "sum_mask (pore_inlets s) \<noteq> 0" and "sum_mask (pore_outlets s) \<noteq> 0"
    and "length (pore_outlets s) = length (pore_invasion_pressure s)"
  shows "(applied_pressure
            < Min {pore_invasion_pressure s ! i | i.
                     i < length (pore_invasion_pressure s) \<and> pore_outlets s ! i} \<longrightarrow>
          is_percolating net s applied_pressure = (Inr False, []))
       \<and> (\<not> applied_pressure
            < Min {pore_invasion_pressure s ! i | i.
                     i < length (pore_invasion_pressure s) \<and> pore_outlets s ! i} \<longrightarrow>
          is_percolating net s applied_pressure
            = (Inr (generic_is_percolating net
                      (create_adjacency_matrix net
                         (map (\<lambda>p. p < applied_pressure) (throat_invasion_pressure s)))
                      (mode (settings s)) (pore_inlets s) (pore_outlets s)),
               [map (\<lambda>p. p < applied_pressure) (throat_invasion_pressure s)]))"
proof -
  let ?outs = "map fst (filter snd (zip (pore_invasion_pressure s) (pore_outlets s)))"
  have sel: "select_masked (pore_invasion_pressure s) (pore_outlets s) = Inr ?outs"
    using assms(3) by (simp add: select_masked_def)
  have set: "set ?outs = {pore_invasion_pressure s ! i | i.
                            i < length (pore_invasion_pressure s) \<and> pore_outlets s ! i}"
    using assms(3) by (rule set_select)
  from sum_mask_pos [OF assms(2)] have "set ?outs \<noteq> {}"
    unfolding set using assms(3) by auto
  then have "?outs \<noteq> []"
    using set_empty by blast
  then have low: "amin ?outs = Inr (Min {pore_invasion_pressure s ! i | i.
                            i < length (pore_invasion_pressure s) \<and> pore_outlets s ! i})"
    using amin_Min set by metis
  show ?thesis
    using assms(1,2) by (simp add: is_percolating_def sel low Let_def)
qed

lemma chain_swept_outlets:
  "{pore_invasion_pressure chain_swept ! i | i.
      i < length (pore_invasion_pressure chain_swept) \<and> pore_outlets chain_swept ! i} = {Fin 7}"
proof -
  have "i < 3 \<longleftrightarrow> i = 0 \<or> i = 1 \<or> i = 2" for i :: nat
    by auto
  then show ?thesis
    by (auto simp: chain_swept_def chain_def init_def nth_Cons')
qed

theorem is_percolating_two_tier_witness:
  "sum_mask (pore_inlets chain_swept) \<noteq> 0
   \<and> sum_mask (pore_outlets chain_swept) \<noteq> 0
   \<and> length (pore_outlets chain_swept) = length (pore_invasion_pressure chain_swept)
   \<and> Fin 5 < Min {Fin 7}
   \<and> is_percolating chain_tester chain_swept (Fin 5) = (Inr False, [])
   \<and> \<not> Fin 8 < Min {Fin 7}
   \<and> is_percolating chain_tester chain_swept (Fin 8)
       = (Inr (generic_is_percolating chain_tester
                 (create_adjacency_matrix chain_tester [True, True])
                 ''bond'' [True, False, False] [False, False, True]),
          [[True, True]])
   \<and> \<not> Fin 7 < Min {Fin 7}
   \<and> is_percolating chain_tester chain_swept (Fin 7)
       = (Inr (generic_is_percolating chain_tester
                 (create_adjacency_matrix chain_tester [True, False])
                 ''bond'' [True, False, False] [False, False, True]),
          [[True, False]])"
proof -
  have c: "sum_mask (pore_inlets chain_swept) \<noteq> 0" "sum_mask (pore_outlets chain_swept) \<noteq> 0"
    "length (pore_outlets chain_swept) = length (pore_invasion_pressure chain_swept)"
    by (simp_all add: chain_swept_def chain_def init_def sum_mask_def)
  have f: "mode (settings chain_swept) = ''bond''"
    "pore_inlets chain_swept = [True, False, False]"
    "pore_outlets chain_swept = [False, False, True]"
    "throat_invasion_pressure chain_swept = [Fin 3, Fin 7]"
    by (simp_all add: chain_swept_def chain_def init_def default_settings_def)
  have m: "Min {pore_invasion_pressure chain_swept ! i | i.
               i < length (pore_invasion_pressure chain_swept) \<and> pore_outlets chain_swept ! i}
             = Fin 7"
    by (simp only: chain_swept_outlets Min_singleton)
  note t = is_percolating_two_tier [OF c, unfolded m]
  have "is_percolating chain_tester chain_swept (Fin 5) = (Inr False, [])"
    using t [of "Fin 5" chain_tester] by simp
  moreover have "is_percolating chain_tester chain_swept (Fin 8)
       = (Inr (generic_is_percolating chain_tester
                 (create_adjacency_matrix chain_tester [True, True])
                 ''bond'' [True, False, False] [False, False, True]),
          [[True, True]])"
    using t [of "Fin 8" chain_tester] by (simp add: f)
  moreover have "is_percolating chain_tester chain_swept (Fin 7)
       = (Inr (generic_is_percolating chain_tester
                 (create_adjacency_matrix chain_tester [True, False])
                 ''bond'' [True, False, False] [False, False, True]),
          [[True, False]])"
    using t [of "Fin 7" chain_tester] by (simp add: f)
  ultimately show ?thesis
    using c by simp
qed

section \<open>Generated thresholds\<close>

lemma linspace_nth:
  assumes "0 \<le> num"
  shows "\<exists>ys. linspace start stop num = Inr ys \<and> length ys = nat num
           \<and> (1 \<le> num \<longrightarrow> ys ! 0 = start)
           \<and> (2 \<le> num \<longrightarrow> ys ! (nat num - 1) = stop)
           \<and> (\<forall>i. Suc i < nat num \<longrightarrow>
                 ys ! Suc i - ys ! i = (stop - start) / (real_of_int num - 1))"
proof (cases "num = 1")
  case True
  then show ?thesis
    by (simp add: linspace_def)
next
  case False
  let ?step = "(stop - start) / real (nat num - 1)"
  let ?ys = "map (\<lambda>i. start + real i * ?step) [0 ..< nat num]"
  have l: "linspace start stop num = Inr ?ys"
    using assms False by (simp add: linspace_def)
  have r: "real (nat num - 1) = real_of_int num - 1" if "1 \<le> num"
    using that by (simp add: of_nat_diff)
  have first: "?ys ! 0 = start" if "1 \<le> num"
    using that by simp
  have last: "?ys ! (nat num - 1) = stop" if "2 \<le> num"
    using that by simp
  have step: "?ys ! Suc i - ?ys ! i = (stop - start) / (real_of_int num - 1)"
    if "Suc i < nat num" for i
  proof -
    have d: "(start + real (Suc i) * d) - (start + real i * d) = d" for d :: real
      by (simp add: algebra_simps)
    have "?ys ! Suc i - ?ys ! i = ?step"
      using that by (simp only: nth_map length_upt nth_upt Suc_lessD minus_nat.diff_0
          add_0 d)
    also have "\<dots> = (stop - start) / (real_of_int num - 1)"
      using that r by simp
    finally show ?thesis .
  qed
  show ?thesis
    using l first last step by auto
qed

lemma generate_points_spaced:
  assumes "ep \<noteq> []" and "0 < Max (set ep)" and "1 \<le> n"
  shows "\<exists>ps. generate_points ep n None None = Inr (map Fin ps)
     \<and> length ps = nat n
     \<and> hd ps = max 1 (Min (set ep) * 0.95)
     \<and> (2 \<le> n \<longrightarrow> last ps = Max (set ep) * 1.05)
     \<and> (\<forall>i. Suc i < nat n \<longrightarrow>
           log 10 (ps ! Suc i) - log 10 (ps ! i)
             = (log 10 (Max (set ep) * 1.05) - log 10 (max 1 (Min (set ep) * 0.95)))
               / (real_of_int n - 1))"
proof -
  let ?lo = "log 10 (max 1 (Min (set ep) * 0.95))"
  let ?hi = "log 10 (Max (set ep) * 1.05)"
  from assms(3) have "0 \<le> n"
    by simp
  from linspace_nth [OF this, of ?lo ?hi] obtain ys where ys:
    "linspace ?lo ?hi n = Inr ys" "length ys = nat n" "ys ! 0 = ?lo"
    "2 \<le> n \<longrightarrow> ys ! (nat n - 1) = ?hi"
    "\<forall>i. Suc i < nat n \<longrightarrow> ys ! Suc i - ys ! i = (?hi - ?lo) / (real_of_int n - 1)"
    using assms(3) by blast
  let ?ps = "map (\<lambda>y. 10 powr y) ys"
  have ne: "ys \<noteq> []"
    using ys(2) assms(3) by auto
  have lo: "log10 (max 1 (Min (set ep) * 0.95)) = Inr ?lo"
    by (simp add: log10_def less_max_iff_disj)
  have hi: "log10 (Max (set ep) * 1.05) = Inr ?hi"
    using assms(2) by (simp add: log10_def)
  have sp: "logspace ?lo ?hi n = Inr ?ps"
    by (simp only: logspace_def ys(1) sum.case)
  have g: "generate_points ep n None None = Inr (map Fin ?ps)"
    unfolding generate_points_def
    by (simp only: amin_Min [OF assms(1)] amax_Max [OF assms(1)] option.case sum.case lo hi sp)
  have first: "hd ?ps = max 1 (Min (set ep) * 0.95)"
    using ne ys(3) by (simp add: hd_map hd_conv_nth less_max_iff_disj)
  have last: "last ?ps = Max (set ep) * 1.05" if "2 \<le> n"
    using that ne ys(2,4) assms(2) by (simp add: last_map last_conv_nth)
  have step: "log 10 (?ps ! Suc i) - log 10 (?ps ! i) = (?hi - ?lo) / (real_of_int n - 1)"
    if "Suc i < nat n" for i
    using that ys(2,5) by simp
  show ?thesis
    using g ys(2) first last step by (intro exI [of _ ?ps]) simp
qed

text \<open>
  C6, as the code has it: with an integer count \<open>n \<ge> 1\<close>, no explicit start or stop and a
  positive largest entry pressure, \<open>run\<close> sweeps exactly \<open>n\<close> thresholds that are evenly
  spaced in \<open>log10\<close>; the first is the larger of 1 and 0.95 times the smallest entry
  pressure of the active mode (throats in bond mode, pores in site mode), and for
  \<open>n \<ge> 2\<close> the last is 1.05 times the largest.
\<close>

theorem generated_thresholds:
  assumes "(mode (settings s) = ''bond''
              \<and> phase (throat_entry_pressure_key (settings s)) = Some ep)
         \<or> (mode (settings s) = ''site''
              \<and> phase (pore_entry_pressure_key (settings s)) = Some ep)"
    and "ep \<noteq> []" and "0 < Max (set ep)" and "1 \<le> n"
  shows "\<exists>ps. fst (prepare phase (Count n) None None s) = Inr (map Fin ps)
     \<and> length ps = nat n
     \<and> hd ps = max 1 (Min (set ep) * 0.95)
     \<and> (2 \<le> n \<longrightarrow> last ps = Max (set ep) * 1.05)
     \<and> (\<forall>i. Suc i < nat n \<longrightarrow>
           log 10 (ps ! Suc i) - log 10 (ps ! i)
             = (log 10 (Max (set ep) * 1.05) - log 10 (max 1 (Min (set ep) * 0.95)))
               / (real_of_int n - 1))"
proof -
  have "fst (prepare phase (Count n) None None s) = generate_points ep n None None"
    using assms(1) by (auto simp: prepare_def resolve_points_def)
  then show ?thesis
    using generate_points_spaced [OF assms(2,3,4)] by simp
qed

theorem generated_thresholds_witness:
  "mode (settings chain) = ''bond''
   \<and> chain_phase (throat_entry_pressure_key (settings chain)) = Some [2, 5]
   \<and> [2, 5 :: real] \<noteq> [] \<and> 0 < Max (set [2, 5 :: real]) \<and> (1 :: int) \<le> 2
   \<and> (\<exists>ps. fst (prepare chain_phase (Count 2) None None chain) = Inr (map Fin ps)
         \<and> length ps = 2 \<and> hd ps = 19 / 10 \<and> last ps = 21 / 4)"
proof -
  have h: "mode (settings chain) = ''bond''
            \<and> chain_phase (throat_entry_pressure_key (settings chain)) = Some [2, 5]
         \<or> mode (settings chain) = ''site''
            \<and> chain_phase (pore_entry_pressure_key (settings chain)) = Some [2, 5]"
    by (simp add: chain_def init_def default_settings_def chain_phase_def)
  have "\<exists>ps. fst (prepare chain_phase (Count 2) None None chain) = Inr (map Fin ps)
         \<and> length ps = 2 \<and> hd ps = 19 / 10 \<and> last ps = 21 / 4"
    using generated_thresholds [OF h, of 2] by simp blast
  then show ?thesis
    by (simp add: chain_def init_def default_settings_def chain_phase_def)
qed

text \<open>
  C6 as the specification states it makes the first threshold 0.95 times the smallest
  entry pressure. For throat entry pressures 0.5 and 2 and a count of 2 the thresholds
  are 1 and 2.1: the start is raised to 1 before its logarithm is taken.
\<close>

theorem generated_thresholds_counterexample:
  "fst (prepare soft_phase (Count 2) None None chain) = Inr [Fin 1, Fin (21 / 10)]
   \<and> Fin 1 \<noteq> Fin (Min (set [1 / 2, 2]) * 0.95)"
proof -
  have "[0 ..< nat 2] = [0, 1]"
    by (simp add: upt_rec)
  then have "logspace 0 (log 10 (21 / 10)) 2 = Inr [1, 21 / 10]"
    by (simp add: logspace_def linspace_def)
  then have "generate_points [1 / 2, 2] 2 None None = Inr [Fin 1, Fin (21 / 10)]"
    by (simp add: generate_points_def log10_def)
  then show ?thesis
    by (simp add: prepare_def resolve_points_def soft_phase_def chain_def init_def
        default_settings_def)
qed

section \<open>Label queries\<close>

lemma count_one:
  "distinct L \<Longrightarrow> (length (filter P L) = Suc 0) = (\<exists>!l. l \<in> set L \<and> P l)"
proof (induction L)
  case Nil
  then show ?case by auto
next
  case (Cons x L)
  show ?case
  proof (cases "P x")
    case True
    have "(\<exists>!l. l \<in> set (x # L) \<and> P l) = (\<forall>l \<in> set L. \<not> P l)"
      using True Cons.prems by auto
    then show ?thesis
      using True by (simp add: filter_empty_conv)
  next
    case False
    have "(\<exists>!l. l \<in> set (x # L) \<and> P l) = (\<exists>!l. l \<in> set L \<and> P l)"
      using False by auto
    then show ?thesis
      using False Cons by simp
  qed
qed

lemma fold_labels_count:
  assumes "element_info t element = Inr d"
    and "\<forall>l \<in> set L. \<exists>a. d l = Some a \<and> length a = length acc"
  shows "fold_labels (\<lambda>c info. broadcast2 (+) c (map of_bool info)) t element L acc
           = Inr (map (\<lambda>i. acc ! i + int (length (filter (carries d i) L))) [0 ..< length acc])"
  using assms(2)
proof (induction L arbitrary: acc)
  case Nil
  then show ?case
    by (simp add: map_nth)
next
  case (Cons l L)
  from Cons.prems obtain a where a: "d l = Some a" "length a = length acc"
    by auto
  let ?acc = "map2 (+) acc (map of_bool a)"
  have g: "get_info t element l = Inr a"
    by (simp add: get_info_def assms(1) a(1))
  have b: "broadcast2 (+) acc (map of_bool a) = Inr ?acc"
    by (simp add: broadcast2_def a(2))
  have len: "length ?acc = length acc"
    by (simp add: a(2))
  have "\<forall>l \<in> set L. \<exists>a. d l = Some a \<and> length a = length ?acc"
    using Cons.prems len by simp
  from Cons.IH [OF this]
  have "fold_labels (\<lambda>c info. broadcast2 (+) c (map of_bool info)) t element (l # L) acc
          = Inr (map (\<lambda>i. ?acc ! i + int (length (filter (carries d i) L))) [0 ..< length acc])"
    by (simp add: g b a(2))
  also have "map (\<lambda>i. ?acc ! i + int (length (filter (carries d i) L))) [0 ..< length acc]
           = map (\<lambda>i. acc ! i + int (length (filter (carries d i) (l # L)))) [0 ..< length acc]"
    using a by (auto simp: carries_def)
  finally show ?case .
qed

lemma get_indices_not_intersection:
  assumes "element_info t element = Inr d" and "d ''all'' = Some every"
    and "\<forall>l \<in> set L. \<exists>a. d l = Some a \<and> length a = length every"
    and "distinct L"
  shows "get_indices t element L return_indices ''not_intersection''
           = Inr (if return_indices
                  then Indices (filter (\<lambda>i. \<exists>!l. l \<in> set L \<and> carries d i l) [0 ..< length every])
                  else Mask (map (\<lambda>i. \<exists>!l. l \<in> set L \<and> carries d i l) [0 ..< length every]))"
proof -
  have all: "get_info t element ''all'' = Inr every"
    by (simp add: get_info_def assms(1,2))
  have "\<forall>l \<in> set L. \<exists>a. d l = Some a \<and> length a = length (map (\<lambda>_. 0 :: int) every)"
    using assms(3) by simp
  from fold_labels_count [OF assms(1) this]
  have f: "fold_labels (\<lambda>c info. broadcast2 (+) c (map of_bool info)) t element L
             (map (\<lambda>_. 0) every)
           = Inr (map (\<lambda>i. int (length (filter (carries d i) L))) [0 ..< length every])"
    by simp
  have w: "where_true (map f [0 ..< n]) = filter f [0 ..< n]" for f n
    by (auto simp: where_true_def intro: filter_cong)
  show ?thesis
    by (simp add: get_indices_def all f w count_one [OF assms(4)] comp_def)
qed

lemma sum_mask_card: "sum_mask (map f [0 ..< n]) = card {i. i < n \<and> f i}"
proof -
  have "sum_mask (map f [0 ..< n]) = length (filter f [0 ..< n])"
    by (simp add: sum_mask_def filter_map comp_def)
  also have "\<dots> = card (set (filter f [0 ..< n]))"
    by (rule distinct_card [symmetric]) simp
  also have "set (filter f [0 ..< n]) = {i. i < n \<and> f i}"
    by auto
  finally show ?thesis .
qed

text \<open>
  C9: for a set of labels \<open>L\<close> (a list without repetition, every label an array with one
  entry for each element), a query with mode 'not_intersection' through \<open>pores\<close>,
  \<open>throats\<close>, \<open>num_pores\<close> or \<open>num_throats\<close> selects exactly the elements that carry
  exactly one of the labels of \<open>L\<close>.
\<close>

theorem not_intersection_exactly_one:
  assumes "distinct L"
  shows "(pore_info t ''all'' = Some every_pore
          \<and> (\<forall>l \<in> set L. \<exists>a. pore_info t l = Some a \<and> length a = length every_pore) \<longrightarrow>
            pores t (Labels L) False ''not_intersection''
              = Inr (Mask (map (\<lambda>i. \<exists>!l. l \<in> set L \<and> carries (pore_info t) i l)
                             [0 ..< length every_pore]))
          \<and> pores t (Labels L) True ''not_intersection''
              = Inr (Indices (filter (\<lambda>i. \<exists>!l. l \<in> set L \<and> carries (pore_info t) i l)
                                [0 ..< length every_pore]))
          \<and> num_pores t (Labels L) ''not_intersection''
              = Inr (card {i. i < length every_pore
                              \<and> (\<exists>!l. l \<in> set L \<and> carries (pore_info t) i l)}))
       \<and> (throat_info t ''all'' = Some every_throat
          \<and> (\<forall>l \<in> set L. \<exists>a. throat_info t l = Some a \<and> length a = length every_throat) \<longrightarrow>
            throats t (Labels L) False ''not_intersection''
              = Inr (Mask (map (\<lambda>i. \<exists>!l. l \<in> set L \<and> carries (throat_info t) i l)
                             [0 ..< length every_throat]))
          \<and> throats t (Labels L) True ''not_intersection''
              = Inr (Indices (filter (\<lambda>i. \<exists>!l. l \<in> set L \<and> carries (throat_info t) i l)
                                [0 ..< length every_throat]))
          \<and> num_throats t (Labels L) ''not_intersection''
              = Inr (card {i. i < length every_throat
                              \<and> (\<exists>!l. l \<in> set L \<and> carries (throat_info t) i l)}))"
proof (intro conjI impI; elim conjE)
  have p: "element_info t ''pore'' = Inr (pore_info t)"
    by (simp add: element_info_def)
  assume a: "pore_info t ''all'' = Some every_pore"
    "\<forall>l \<in> set L. \<exists>a. pore_info t l = Some a \<and> length a = length every_pore"
  note P = get_indices_not_intersection [OF p a assms]
  show "pores t (Labels L) False ''not_intersection''
          = Inr (Mask (map (\<lambda>i. \<exists>!l. l \<in> set L \<and> carries (pore_info t) i l)
                         [0 ..< length every_pore]))"
    by (simp add: pores_def P)
  show "pores t (Labels L) True ''not_intersection''
          = Inr (Indices (filter (\<lambda>i. \<exists>!l. l \<in> set L \<and> carries (pore_info t) i l)
                            [0 ..< length every_pore]))"
    by (simp add: pores_def P)
  show "num_pores t (Labels L) ''not_intersection''
          = Inr (card {i. i < length every_pore
                          \<and> (\<exists>!l. l \<in> set L \<and> carries (pore_info t) i l)})"
    by (simp add: num_pores_def get_pore_indices_def pores_def P sum_mask_card)
next
  have th: "element_info t ''throat'' = Inr (throat_info t)"
    by (simp add: element_info_def)
  assume a: "throat_info t ''all'' = Some every_throat"
    "\<forall>l \<in> set L. \<exists>a. throat_info t l = Some a \<and> length a = length every_throat"
  note T = get_indices_not_intersection [OF th a assms]
  show "throats t (Labels L) False ''not_intersection''
          = Inr (Mask (map (\<lambda>i. \<exists>!l. l \<in> set L \<and> carries (throat_info t) i l)
                         [0 ..< length every_throat]))"
    by (simp add: throats_def T)
  show "throats t (Labels L) True ''not_intersection''
          = Inr (Indices (filter (\<lambda>i. \<exists>!l. l \<in> set L \<and> carries (throat_info t) i l)
                            [0 ..< length every_throat]))"
    by (simp add: throats_def T)
  show "num_throats t (Labels L) ''not_intersection''
          = Inr (card {i. i < length every_throat
                          \<and> (\<exists>!l. l \<in> set L \<and> carries (throat_info t) i l)})"
    by (simp add: num_throats_def get_throat_indices_def throats_def T sum_mask_card)
qed

lemma small_net_queries:
  "pores small_net (Labels [''top'', ''front'']) False ''not_intersection''
     = Inr (Mask [True, False, True, False])"
  "pores small_net (Labels [''top'', ''front'']) True ''not_intersection''
     = Inr (Indices [0, 2])"
  "num_pores small_net (Labels [''top'', ''front'']) ''not_intersection'' = Inr 2"
  "throats small_net (Labels [''top'', ''front'']) False ''not_intersection''
     = Inr (Mask [False, True, False])"
  "throats small_net (Labels [''top'', ''front'']) True ''not_intersection''
     = Inr (Indices [1])"
  "num_throats small_net (Labels [''top'', ''front'']) ''not_intersection'' = Inr 1"
  by code_simp+

theorem not_intersection_exactly_one_witness:
  "distinct [''top'', ''front'']
   \<and> pore_info small_net ''all'' = Some [True, True, True, True]
   \<and> pore_info small_net ''top'' = Some [True, True, False, False]
   \<and> pore_info small_net ''front'' = Some [False, True, True, False]
   \<and> throat_info small_net ''all'' = Some [True, True, True]
   \<and> throat_info small_net ''top'' = Some [True, False, False]
   \<and> throat_info small_net ''front'' = Some [True, True, False]
   \<and> pores small_net (Labels [''top'', ''front'']) True ''not_intersection''
       = Inr (Indices [0, 2])
   \<and> filter (\<lambda>i. \<exists>!l. l \<in> set [''top'', ''front''] \<and> carries (pore_info small_net) i l)
        [0 ..< length [True, True, True, True]] = [0, 2]
   \<and> card {i. i < length [True, True, True, True]
               \<and> (\<exists>!l. l \<in> set [''top'', ''front''] \<and> carries (pore_info small_net) i l)} = 2
   \<and> throats small_net (Labels [''top'', ''front'']) True ''not_intersection''
       = Inr (Indices [1])
   \<and> filter (\<lambda>i. \<exists>!l. l \<in> set [''top'', ''front''] \<and> carries (throat_info small_net) i l)
        [0 ..< length [True, True, True]] = [1]
   \<and> card {i. i < length [True, True, True]
               \<and> (\<exists>!l. l \<in> set [''top'', ''front''] \<and> carries (throat_info small_net) i l)} = 1"
proof -
  have h: "distinct [''top'', ''front'']"
    "pore_info small_net ''all'' = Some [True, True, True, True]"
    "\<forall>l \<in> set [''top'', ''front''].
       \<exists>a. pore_info small_net l = Some a \<and> length a = length [True, True, True, True]"
    "throat_info small_net ''all'' = Some [True, True, True]"
    "\<forall>l \<in> set [''top'', ''front''].
       \<exists>a. throat_info small_net l = Some a \<and> length a = length [True, True, True]"
    by (simp_all add: small_net_def)
  note t0 = not_intersection_exactly_one [OF h(1), of small_net "[True, True, True, True]"
      "[True, True, True]"]
  have t: "Inr (Mask [True, False, True, False])
        = (Inr (Mask (map
             (\<lambda>i. \<exists>!l. l \<in> set [''top'', ''front''] \<and> carries (pore_info small_net) i l)
             [0 ..< length [True, True, True, True]])) :: error + ind)
      \<and> Inr (Indices [0, 2])
        = (Inr (Indices (filter
             (\<lambda>i. \<exists>!l. l \<in> set [''top'', ''front''] \<and> carries (pore_info small_net) i l)
             [0 ..< length [True, True, True, True]])) :: error + ind)
      \<and> Inr 2
        = (Inr (card {i. i < length [True, True, True, True]
            \<and> (\<exists>!l. l \<in> set [''top'', ''front''] \<and> carries (pore_info small_net) i l)})
           :: error + nat)
      \<and> Inr (Mask [False, True, False])
        = (Inr (Mask (map
             (\<lambda>i. \<exists>!l. l \<in> set [''top'', ''front''] \<and> carries (throat_info small_net) i l)
             [0 ..< length [True, True, True]])) :: error + ind)
      \<and> Inr (Indices [1])
        = (Inr (Indices (filter
             (\<lambda>i. \<exists>!l. l \<in> set [''top'', ''front''] \<and> carries (throat_info small_net) i l)
             [0 ..< length [True, True, True]])) :: error + ind)
      \<and> Inr 1
        = (Inr (card {i. i < length [True, True, True]
            \<and> (\<exists>!l. l \<in> set [''top'', ''front''] \<and> carries (throat_info small_net) i l)})
           :: error + nat)"
    using t0 [unfolded small_net_queries] h(2,3,4,5) by blast
  from t have "Inr (Indices [0, 2])
      = (Inr (Indices (filter
           (\<lambda>i. \<exists>!l. l \<in> set [''top'', ''front''] \<and> carries (pore_info small_net) i l)
           [0 ..< length [True, True, True, True]])) :: error + ind)"
    by blast
  then have p: "filter
      (\<lambda>i. \<exists>!l. l \<in> set [''top'', ''front''] \<and> carries (pore_info small_net) i l)
      [0 ..< length [True, True, True, True]] = [0, 2]"
    by (simp only: sum.inject ind.inject)
  from t have "Inr 2
      = (Inr (card {i. i < length [True, True, True, True]
          \<and> (\<exists>!l. l \<in> set [''top'', ''front''] \<and> carries (pore_info small_net) i l)})
         :: error + nat)"
    by blast
  then have np: "card {i. i < length [True, True, True, True]
      \<and> (\<exists>!l. l \<in> set [''top'', ''front''] \<and> carries (pore_info small_net) i l)} = 2"
    by (simp only: sum.inject)
  from t have "Inr (Indices [1])
      = (Inr (Indices (filter
           (\<lambda>i. \<exists>!l. l \<in> set [''top'', ''front''] \<and> carries (throat_info small_net) i l)
           [0 ..< length [True, True, True]])) :: error + ind)"
    by blast
  then have th: "filter
      (\<lambda>i. \<exists>!l. l \<in> set [''top'', ''front''] \<and> carries (throat_info small_net) i l)
      [0 ..< length [True, True, True]] = [1]"
    by (simp only: sum.inject ind.inject)
  from t have "Inr 1
      = (Inr (card {i. i < length [True, True, True]
          \<and> (\<exists>!l. l \<in> set [''top'', ''front''] \<and> carries (throat_info small_net) i l)})
         :: error + nat)"
    by blast
  then have nt: "card {i. i < length [True, True, True]
      \<and> (\<exists>!l. l \<in> set [''top'', ''front''] \<and> carries (throat_info small_net) i l)} = 1"
    by (simp only: sum.inject)
  have g: "pore_info small_net ''top'' = Some [True, True, False, False]"
    "pore_info small_net ''front'' = Some [False, True, True, False]"
    "throat_info small_net ''top'' = Some [True, False, False]"
    "throat_info small_net ''front'' = Some [True, True, False]"
    by (simp_all add: small_net_def)
  show ?thesis
    using h(1,2,4) g small_net_queries(2,5) p np th nt by blast
qed

section \<open>Relative permeability sweep\<close>

lemma ebind_Inr: "ebind m f = Inr y \<longleftrightarrow> (\<exists>x. m = Inr x \<and> f x = Inr y)"
  by (cases m) (simp_all add: ebind_def)

lemma invaded_point_Inr:
  assumes "invaded_point env flow Fi Fo Snw res1 (c, st) = Inr (c', st')"
  shows "Snwparr c' = Snwparr c @ [Snw]"
    and "length (curve_relperm_wp c') = Suc (length (curve_relperm_wp c))"
    and "length (curve_relperm_nwp c') = Suc (length (curve_relperm_nwp c))"
    and "length (flow_solves st') = length (flow_solves st) + 2"
    and "swept st' = swept st" and "input_vect st' = input_vect st"
  using assms
  by (auto simp: invaded_point_def ebind_Inr Let_def)

lemma saturation_point_Inr:
  assumes "saturation_point env ip pair flow Fi Fo Snw (c, st) = Inr (c', st')"
  shows "Snwparr c' = Snwparr c @ filter (\<lambda>S. np_any (throat_occupancy (ip_results env ip S))) [Snw]"
    and "length (curve_relperm_wp c')
           = length (curve_relperm_wp c)
             + length (filter (\<lambda>S. np_any (throat_occupancy (ip_results env ip S))) [Snw])"
    and "length (curve_relperm_nwp c')
           = length (curve_relperm_nwp c)
             + length (filter (\<lambda>S. np_any (throat_occupancy (ip_results env ip S))) [Snw])"
    and "length (flow_solves st')
           = length (flow_solves st)
             + 2 * length (filter (\<lambda>S. np_any (throat_occupancy (ip_results env ip S))) [Snw])"
    and "swept st' = swept st" and "input_vect st' = input_vect st"
proof -
  from assms obtain c1 st1 where
    p: "(if np_any (throat_occupancy (ip_results env ip Snw))
         then invaded_point env flow Fi Fo Snw (ip_results env ip Snw) (c, st)
         else Inr (c, st)) = Inr (c1, st1)"
    and c': "c' = c1"
    and st': "st' = st1\<lparr>relperm_wp := AList.update pair (curve_relperm_wp c1) (relperm_wp st1),
                         relperm_nwp := AList.update pair (curve_relperm_nwp c1) (relperm_nwp st1),
                         sat := AList.update pair (Snwparr c1) (sat st1)\<rparr>"
    by (auto simp: saturation_point_def Let_def ebind_Inr)
  show "Snwparr c' = Snwparr c @ filter (\<lambda>S. np_any (throat_occupancy (ip_results env ip S))) [Snw]"
    using p invaded_point_Inr(1) [of env flow Fi Fo Snw _ c st c1 st1]
    by (auto simp: c' split: if_splits)
  show "length (curve_relperm_wp c')
           = length (curve_relperm_wp c)
             + length (filter (\<lambda>S. np_any (throat_occupancy (ip_results env ip S))) [Snw])"
    using p invaded_point_Inr(2) [of env flow Fi Fo Snw _ c st c1 st1]
    by (auto simp: c' split: if_splits)
  show "length (curve_relperm_nwp c')
           = length (curve_relperm_nwp c)
             + length (filter (\<lambda>S. np_any (throat_occupancy (ip_results env ip S))) [Snw])"
    using p invaded_point_Inr(3) [of env flow Fi Fo Snw _ c st c1 st1]
    by (auto simp: c' split: if_splits)
  show "length (flow_solves st')
           = length (flow_solves st)
             + 2 * length (filter (\<lambda>S. np_any (throat_occupancy (ip_results env ip S))) [Snw])"
    using p invaded_point_Inr(4) [of env flow Fi Fo Snw _ c st c1 st1]
    by (auto simp: st' split: if_splits)
  show "swept st' = swept st"
    using p invaded_point_Inr(5) [of env flow Fi Fo Snw _ c st c1 st1]
    by (auto simp: st' split: if_splits)
  show "input_vect st' = input_vect st"
    using p invaded_point_Inr(6) [of env flow Fi Fo Snw _ c st c1 st1]
    by (auto simp: st' split: if_splits)
qed

lemma saturation_sweep_Inr:
  assumes "saturation_sweep env ip pair flow Fi Fo Sarr (c, st) = Inr (c', st')"
  shows "Snwparr c' = Snwparr c @ filter (\<lambda>S. np_any (throat_occupancy (ip_results env ip S))) Sarr
       \<and> length (curve_relperm_wp c')
           = length (curve_relperm_wp c)
             + length (filter (\<lambda>S. np_any (throat_occupancy (ip_results env ip S))) Sarr)
       \<and> length (curve_relperm_nwp c')
           = length (curve_relperm_nwp c)
             + length (filter (\<lambda>S. np_any (throat_occupancy (ip_results env ip S))) Sarr)
       \<and> length (flow_solves st')
           = length (flow_solves st)
             + 2 * length (filter (\<lambda>S. np_any (throat_occupancy (ip_results env ip S))) Sarr)
       \<and> swept st' = swept st \<and> input_vect st' = input_vect st"
  using assms
proof (induction Sarr arbitrary: c st)
  case Nil
  then show ?case by simp
next
  case (Cons Snw Sarr)
  from Cons.prems obtain c1 st1 where
    p: "saturation_point env ip pair flow Fi Fo Snw (c, st) = Inr (c1, st1)"
    and r: "saturation_sweep env ip pair flow Fi Fo Sarr (c1, st1) = Inr (c', st')"
    by (auto simp: ebind_Inr)
  note sp = saturation_point_Inr [OF p]
  note ih = Cons.IH [OF r]
  show ?case
    using ih sp by (simp split: if_splits)
qed

text \<open>
  C8: the saturation sweep runs over ten evenly spaced targets in [0, 1]. At a target
  for which the occupancy query returns no invaded throat the point is skipped: no flow
  solve is run, nothing is appended to the two relative permeability lists or to the
  list of achieved saturations, and the sweep goes on with the next target. Over a
  whole sweep the achieved saturations are the targets with an invaded throat, with one
  pair of relative permeabilities and two flow solves for each.
\<close>

theorem degenerate_saturation_skipped:
  "linspace 0 1 10 = Inr (map (\<lambda>i. real i / 9) [0 ..< 10])
   \<and> (\<not> np_any (throat_occupancy (ip_results env ip Snw)) \<longrightarrow>
        saturation_point env ip pair flow Fi Fo Snw (c, st)
          = Inr (c, st\<lparr>relperm_wp := AList.update pair (curve_relperm_wp c) (relperm_wp st),
                       relperm_nwp := AList.update pair (curve_relperm_nwp c) (relperm_nwp st),
                       sat := AList.update pair (Snwparr c) (sat st)\<rparr>)
      \<and> saturation_sweep env ip pair flow Fi Fo (Snw # Sarr) (c, st)
          = saturation_sweep env ip pair flow Fi Fo Sarr
              (c, st\<lparr>relperm_wp := AList.update pair (curve_relperm_wp c) (relperm_wp st),
                     relperm_nwp := AList.update pair (curve_relperm_nwp c) (relperm_nwp st),
                     sat := AList.update pair (Snwparr c) (sat st)\<rparr>))
   \<and> (saturation_sweep env ip pair flow Fi Fo Sarr (c, st) = Inr (c', st') \<longrightarrow>
        Snwparr c'
          = Snwparr c @ filter (\<lambda>S. np_any (throat_occupancy (ip_results env ip S))) Sarr
      \<and> length (curve_relperm_wp c')
          = length (curve_relperm_wp c)
            + length (filter (\<lambda>S. np_any (throat_occupancy (ip_results env ip S))) Sarr)
      \<and> length (curve_relperm_nwp c')
          = length (curve_relperm_nwp c)
            + length (filter (\<lambda>S. np_any (throat_occupancy (ip_results env ip S))) Sarr)
      \<and> length (flow_solves st')
          = length (flow_solves st)
            + 2 * length (filter (\<lambda>S. np_any (throat_occupancy (ip_results env ip S))) Sarr))"
proof (intro conjI impI)
  show "linspace 0 1 10 = Inr (map (\<lambda>i. real i / 9) [0 ..< 10])"
    by (simp add: linspace_def)
next
  assume d: "\<not> np_any (throat_occupancy (ip_results env ip Snw))"
  then show p: "saturation_point env ip pair flow Fi Fo Snw (c, st)
          = Inr (c, st\<lparr>relperm_wp := AList.update pair (curve_relperm_wp c) (relperm_wp st),
                       relperm_nwp := AList.update pair (curve_relperm_nwp c) (relperm_nwp st),
                       sat := AList.update pair (Snwparr c) (sat st)\<rparr>)"
    by (simp add: saturation_point_def ebind_def)
  show "saturation_sweep env ip pair flow Fi Fo (Snw # Sarr) (c, st)
          = saturation_sweep env ip pair flow Fi Fo Sarr
              (c, st\<lparr>relperm_wp := AList.update pair (curve_relperm_wp c) (relperm_wp st),
                     relperm_nwp := AList.update pair (curve_relperm_nwp c) (relperm_nwp st),
                     sat := AList.update pair (Snwparr c) (sat st)\<rparr>)"
    by (simp add: p ebind_def)
next
  assume s: "saturation_sweep env ip pair flow Fi Fo Sarr (c, st) = Inr (c', st')"
  note r = saturation_sweep_Inr [OF s]
  show "Snwparr c'
          = Snwparr c @ filter (\<lambda>S. np_any (throat_occupancy (ip_results env ip S))) Sarr"
    using r by blast
  show "length (curve_relperm_wp c')
          = length (curve_relperm_wp c)
            + length (filter (\<lambda>S. np_any (throat_occupancy (ip_results env ip S))) Sarr)"
    using r by blast
  show "length (curve_relperm_nwp c')
          = length (curve_relperm_nwp c)
            + length (filter (\<lambda>S. np_any (throat_occupancy (ip_results env ip S))) Sarr)"
    using r by blast
  show "length (flow_solves st')
          = length (flow_solves st)
            + 2 * length (filter (\<lambda>S. np_any (throat_occupancy (ip_results env ip S))) Sarr)"
    using r by blast
qed

theorem degenerate_saturation_skipped_witness:
  "\<not> np_any (throat_occupancy (ip_results toy_env [0] 0))
   \<and> saturation_point toy_env [0] ''xy'' ''y'' [(''y'', [0, 1])] [(''y'', [0, 1])] 0
        (empty_curve, toy_ready)
      = Inr (empty_curve,
             toy_ready\<lparr>relperm_wp := [(''xy'', [])], relperm_nwp := [(''xy'', [])],
                       sat := [(''xy'', [])]\<rparr>)
   \<and> (\<exists>c' st'. saturation_sweep toy_env [0] ''xy'' ''y'' [(''y'', [0, 1])] [(''y'', [0, 1])]
                   [0, 1] (empty_curve, toy_ready) = Inr (c', st')
         \<and> Snwparr c' = [1]
         \<and> length (curve_relperm_wp c') = 1
         \<and> length (curve_relperm_nwp c') = 1
         \<and> length (flow_solves st') = 2)"
proof -
  let ?sweep = "saturation_sweep toy_env [0] ''xy'' ''y'' [(''y'', [0, 1])] [(''y'', [0, 1])]
                  [0, 1] (empty_curve, toy_ready)"
  have d: "\<not> np_any (throat_occupancy (ip_results toy_env [0] 0))"
    by (simp add: toy_env_def np_any_def)
  have f: "filter (\<lambda>S. np_any (throat_occupancy (ip_results toy_env [0] S))) [0, 1] = [1]"
    by (simp add: toy_env_def np_any_def)
  have "\<not> isl ?sweep"
    by (simp add: saturation_point_def invaded_point_def ebind_def dict_get_def toy_env_def
        toy_ready_def new_relperm_def empty_curve_def np_any_def Let_def)
  then obtain c' st' where s: "?sweep = Inr (c', st')"
    by (cases ?sweep) auto
  note t = degenerate_saturation_skipped
    [of toy_env "[0]" 0 "''xy''" "''y''" "[(''y'', [0, 1])]" "[(''y'', [0, 1])]"
      empty_curve toy_ready "[0, 1]" c' st']
  note skip = t [THEN conjunct2, THEN conjunct1, THEN mp, OF d, THEN conjunct1]
  note whole = t [THEN conjunct2, THEN conjunct2, THEN mp, OF s, unfolded f]
  have e: "curve_relperm_wp empty_curve = []" "curve_relperm_nwp empty_curve = []"
    "Snwparr empty_curve = []" "flow_solves toy_ready = []" "relperm_wp toy_ready = []"
    "relperm_nwp toy_ready = []" "sat toy_ready = []"
    by (simp_all add: empty_curve_def toy_ready_def new_relperm_def)
  have skipped: "saturation_point toy_env [0] ''xy'' ''y'' [(''y'', [0, 1])] [(''y'', [0, 1])] 0
        (empty_curve, toy_ready)
      = Inr (empty_curve,
             toy_ready\<lparr>relperm_wp := [(''xy'', [])], relperm_nwp := [(''xy'', [])],
                       sat := [(''xy'', [])]\<rparr>)"
    using skip by (simp add: e)
  have "Snwparr c' = [1] \<and> length (curve_relperm_wp c') = 1
      \<and> length (curve_relperm_nwp c') = 1 \<and> length (flow_solves st') = 2"
    using whole by (simp add: e)
  then show ?thesis
    using d skipped s by blast
qed

section \<open>The order of the axis pairs\<close>

lemma register_pairs_Inr:
  "register_pairs pairs st = Inr st' \<Longrightarrow>
     input_vect st' = input_vect st \<and> swept st' = swept st"
proof (induction pairs arbitrary: st)
  case Nil
  then show ?case by simp
next
  case (Cons pair pairs)
  from Cons.prems obtain st1 where r: "register_pair pair st = Inr st1"
    "register_pairs pairs st1 = Inr st'"
    by (auto simp: ebind_Inr)
  from r(1) have "input_vect st1 = input_vect st \<and> swept st1 = swept st"
    by (auto simp: register_pair_def ebind_Inr)
  then show ?case
    using Cons.IH [OF r(2)] by simp
qed

lemma baselines_Inr:
  "baselines env Fi Fo K_dir st = Inr st' \<Longrightarrow>
     input_vect st' = input_vect st \<and> swept st' = swept st"
proof (induction K_dir arbitrary: st)
  case Nil
  then show ?case by simp
next
  case (Cons axis K_dir)
  from Cons.prems obtain st1 where r: "baseline env Fi Fo axis st = Inr st1"
    "baselines env Fi Fo K_dir st1 = Inr st'"
    by (auto simp: ebind_Inr)
  from r(1) have "input_vect st1 = input_vect st \<and> swept st1 = swept st"
    by (auto simp: baseline_def ebind_Inr Let_def)
  then show ?case
    using Cons.IH [OF r(2)] by simp
qed

lemma axis_sweep_Inr:
  "axis_sweep env Ii Fi Fo Sarr pairs (ip, st) = Inr (ip', st') \<Longrightarrow>
     input_vect st' = input_vect st \<and> swept st' = swept st @ pairs"
proof (induction pairs arbitrary: ip st)
  case Nil
  then show ?case by simp
next
  case (Cons pair pairs)
  from Cons.prems obtain invasion flow inlets c1 st1 where
    s: "saturation_sweep env (ip_run env (ip_set_inlets env ip inlets)) pair flow Fi Fo Sarr
          (\<lparr>curve_relperm_wp = [], curve_relperm_nwp = [], Snwparr = []\<rparr>,
           st\<lparr>swept := swept st @ [pair]\<rparr>) = Inr (c1, st1)"
    and r: "axis_sweep env Ii Fi Fo Sarr pairs
              (ip_run env (ip_set_inlets env ip inlets), st1) = Inr (ip', st')"
    by (auto simp: ebind_Inr Let_def)
  from saturation_sweep_Inr [OF s]
  have "input_vect st1 = input_vect st \<and> swept st1 = swept st @ [pair]"
    by simp
  then show ?case
    using Cons.IH [OF r] by simp
qed

lemma setup_ip_algs_Inr:
  assumes "setup_ip_algs env h st = Inr st'"
  shows "\<exists>a pairs. input_vect st = Some a \<and> h a = Some pairs
           \<and> input_vect st' = Some a \<and> swept st' = swept st @ pairs"
proof -
  from assms obtain st1 Sarr pairs ip where
    b: "baselines env (map (\<lambda>(axis, label). (axis, network_pores env label)) (flow_inlets st))
          (map (\<lambda>(axis, label). (axis, network_pores env label)) (flow_outlets st))
          (iter_set env (map fst (flow_inlets st)))
          (st\<lparr>wp_occupancy := None, nwp_occupancy := None\<rparr>) = Inr st1"
    and p: "(case input_vect st1 of
               None \<Rightarrow> Inl (KeyError ''input_vect'')
             | Some a \<Rightarrow> (case h a of None \<Rightarrow> Inl AttributeError | Some pairs \<Rightarrow> Inr pairs))
            = Inr pairs"
    and s: "axis_sweep env
              (map (\<lambda>(key, ps). (key, every_other ps))
                 (map (\<lambda>(axis, label). (axis, network_pores env label)) (inv_inlets st)))
              (map (\<lambda>(axis, label). (axis, network_pores env label)) (flow_inlets st))
              (map (\<lambda>(axis, label). (axis, network_pores env label)) (flow_outlets st))
              Sarr pairs (ip_new env, st1) = Inr (ip, st')"
    by (auto simp: setup_ip_algs_def Let_def ebind_Inr)
  from baselines_Inr [OF b] have st1: "input_vect st1 = input_vect st" "swept st1 = swept st"
    by simp_all
  from p obtain a where a: "input_vect st1 = Some a" "h a = Some pairs"
    by (auto split: option.splits)
  have "input_vect st = Some a"
    using st1(1) a(1) by simp
  moreover have "input_vect st' = Some a \<and> swept st' = swept st @ pairs"
    using axis_sweep_Inr [OF s] st1 a(1) by simp
  ultimately show ?thesis
    using a(2) by blast
qed

lemma sort_mset_eq:
  fixes xs ys :: "'a::linorder list"
  shows "mset xs = mset ys \<Longrightarrow> sort xs = sort ys"
  by (metis mset_sort properties_for_sort sorted_sort)

lemma dict_get_key: "k \<in> keys d \<Longrightarrow> \<exists>v. dict_get d k = Inr v"
  by (cases "map_of d k") (auto simp: dict_get_def keys_def map_of_eq_None_iff)

lemma keys_update: "keys (AList.update k v d) = insert k (keys d)"
  by (simp add: keys_def dom_update)

lemma keys_map: "keys (map (\<lambda>(k, v). (k, f k v)) d) = keys d"
  by (force simp: keys_def)

lemma valid_pair_parts:
  assumes "valid_pair pair"
  obtains flow_in flow_out inv_in where
    "str_at pair 0 = Inr [pair ! 0]" "str_at pair 1 = Inr [pair ! 1]"
    "dict_get inlet_dict [pair ! 1] = Inr flow_in"
    "dict_get outlet_dict [pair ! 1] = Inr flow_out"
    "dict_get inlet_dict [pair ! 0] = Inr inv_in"
proof -
  have k: "[pair ! 0] \<in> keys inlet_dict" "[pair ! 1] \<in> keys inlet_dict"
    "[pair ! 1] \<in> keys outlet_dict"
    using assms by (auto simp: valid_pair_def keys_def inlet_dict_def outlet_dict_def)
  have "str_at pair 0 = Inr [pair ! 0]" "str_at pair 1 = Inr [pair ! 1]"
    using assms by (auto simp: valid_pair_def str_at_def)
  then show ?thesis
    using dict_get_key [OF k(1)] dict_get_key [OF k(2)] dict_get_key [OF k(3)] that by blast
qed

lemma register_pair_valid:
  assumes "valid_pair pair"
  shows "\<exists>st'. register_pair pair st = Inr st'
           \<and> flow_ready st' [pair ! 1] \<and> [pair ! 0] \<in> keys (inv_inlets st')
           \<and> (\<forall>f. flow_ready st f \<longrightarrow> flow_ready st' f)
           \<and> keys (inv_inlets st) \<subseteq> keys (inv_inlets st')
           \<and> (consistent st \<longrightarrow> consistent st')"
proof -
  from assms obtain flow_in flow_out inv_in where p:
    "str_at pair 0 = Inr [pair ! 0]" "str_at pair 1 = Inr [pair ! 1]"
    "dict_get inlet_dict [pair ! 1] = Inr flow_in"
    "dict_get outlet_dict [pair ! 1] = Inr flow_out"
    "dict_get inlet_dict [pair ! 0] = Inr inv_in"
    by (rule valid_pair_parts)
  show ?thesis
    unfolding register_pair_def p ebind_def sum.case
    by (auto simp: flow_ready_def consistent_def keys_update)
qed

lemma register_pairs_valid:
  assumes "\<forall>p \<in> set pairs. valid_pair p"
  shows "\<exists>st'. register_pairs pairs st = Inr st'
           \<and> (\<forall>p \<in> set pairs. flow_ready st' [p ! 1] \<and> [p ! 0] \<in> keys (inv_inlets st'))
           \<and> (\<forall>f. flow_ready st f \<longrightarrow> flow_ready st' f)
           \<and> keys (inv_inlets st) \<subseteq> keys (inv_inlets st')
           \<and> (consistent st \<longrightarrow> consistent st')"
  using assms
proof (induction pairs arbitrary: st)
  case Nil
  then show ?case by simp
next
  case (Cons pair pairs)
  from Cons.prems have v: "valid_pair pair" and vs: "\<forall>p \<in> set pairs. valid_pair p"
    by simp_all
  from register_pair_valid [OF v, of st] obtain st1 where
    r: "register_pair pair st = Inr st1"
    "flow_ready st1 [pair ! 1]" "[pair ! 0] \<in> keys (inv_inlets st1)"
    "\<forall>f. flow_ready st f \<longrightarrow> flow_ready st1 f"
    "keys (inv_inlets st) \<subseteq> keys (inv_inlets st1)"
    "consistent st \<longrightarrow> consistent st1"
    by blast
  from Cons.IH [OF vs, of st1] obtain st' where
    s: "register_pairs pairs st1 = Inr st'"
    "\<forall>p \<in> set pairs. flow_ready st' [p ! 1] \<and> [p ! 0] \<in> keys (inv_inlets st')"
    "\<forall>f. flow_ready st1 f \<longrightarrow> flow_ready st' f"
    "keys (inv_inlets st1) \<subseteq> keys (inv_inlets st')"
    "consistent st1 \<longrightarrow> consistent st'"
    by blast
  have "register_pairs (pair # pairs) st = Inr st'"
    by (simp add: r(1) s(1) ebind_def)
  then show ?case
    using r s by auto
qed

lemma baseline_solvable:
  assumes "solvable st Fi Fo axis"
  shows "\<exists>st'. baseline env Fi Fo axis st = Inr st'
           \<and> BP_1 st' = BP_1 st \<and> BP_2 st' = BP_2 st \<and> input_vect st' = input_vect st
           \<and> keys (perm_wp st') = insert axis (keys (perm_wp st))
           \<and> keys (perm_nwp st') = insert axis (keys (perm_nwp st))"
proof -
  from assms obtain bp1 bp2 fin fout where
    "dict_get (BP_1 st) axis = Inr bp1" "dict_get (BP_2 st) axis = Inr bp2"
    "dict_get Fi axis = Inr fin" "dict_get Fo axis = Inr fout"
    unfolding solvable_def by (meson dict_get_key)
  then show ?thesis
    by (simp add: baseline_def ebind_def Let_def keys_update)
qed

lemma baselines_solvable:
  assumes "\<forall>axis \<in> set K_dir. solvable st Fi Fo axis"
  shows "\<exists>st'. baselines env Fi Fo K_dir st = Inr st'
           \<and> BP_1 st' = BP_1 st \<and> BP_2 st' = BP_2 st \<and> input_vect st' = input_vect st
           \<and> keys (perm_wp st') = set K_dir \<union> keys (perm_wp st)
           \<and> keys (perm_nwp st') = set K_dir \<union> keys (perm_nwp st)"
  using assms
proof (induction K_dir arbitrary: st)
  case Nil
  then show ?case by simp
next
  case (Cons axis K_dir)
  from Cons.prems have "solvable st Fi Fo axis"
    by simp
  from baseline_solvable [OF this, of env] obtain st1 where
    b: "baseline env Fi Fo axis st = Inr st1" "BP_1 st1 = BP_1 st" "BP_2 st1 = BP_2 st"
    "input_vect st1 = input_vect st"
    "keys (perm_wp st1) = insert axis (keys (perm_wp st))"
    "keys (perm_nwp st1) = insert axis (keys (perm_nwp st))"
    by blast
  have "\<forall>axis \<in> set K_dir. solvable st1 Fi Fo axis"
    using Cons.prems b(2,3) by (simp add: solvable_def)
  from Cons.IH [OF this] obtain st' where
    s: "baselines env Fi Fo K_dir st1 = Inr st'" "BP_1 st' = BP_1 st1" "BP_2 st' = BP_2 st1"
    "input_vect st' = input_vect st1"
    "keys (perm_wp st') = set K_dir \<union> keys (perm_wp st1)"
    "keys (perm_nwp st') = set K_dir \<union> keys (perm_nwp st1)"
    by blast
  have "baselines env Fi Fo (axis # K_dir) st = Inr st'"
    by (simp add: b(1) s(1) ebind_def)
  then show ?case
    using b s by auto
qed

lemma saturation_point_measurable:
  assumes "measurable st Fi Fo flow"
  shows "\<exists>c' st'. saturation_point env ip pair flow Fi Fo Snw (c, st) = Inr (c', st')
           \<and> BP_1 st' = BP_1 st \<and> BP_2 st' = BP_2 st
           \<and> perm_wp st' = perm_wp st \<and> perm_nwp st' = perm_nwp st"
proof -
  from assms obtain bp1 bp2 fin fout K_wp K_nwp where
    "dict_get (BP_1 st) flow = Inr bp1" "dict_get (BP_2 st) flow = Inr bp2"
    "dict_get Fi flow = Inr fin" "dict_get Fo flow = Inr fout"
    "dict_get (perm_wp st) flow = Inr K_wp" "dict_get (perm_nwp st) flow = Inr K_nwp"
    unfolding measurable_def solvable_def by (meson dict_get_key)
  then show ?thesis
    by (simp add: saturation_point_def invaded_point_def ebind_def Let_def)
qed

lemma measurable_cong:
  "BP_1 st' = BP_1 st \<Longrightarrow> BP_2 st' = BP_2 st \<Longrightarrow> perm_wp st' = perm_wp st
     \<Longrightarrow> perm_nwp st' = perm_nwp st \<Longrightarrow> measurable st' Fi Fo = measurable st Fi Fo"
  by (simp add: measurable_def solvable_def fun_eq_iff)

lemma saturation_sweep_measurable:
  assumes "measurable st Fi Fo flow"
  shows "\<exists>c' st'. saturation_sweep env ip pair flow Fi Fo Sarr (c, st) = Inr (c', st')
           \<and> BP_1 st' = BP_1 st \<and> BP_2 st' = BP_2 st
           \<and> perm_wp st' = perm_wp st \<and> perm_nwp st' = perm_nwp st"
  using assms
proof (induction Sarr arbitrary: c st)
  case Nil
  then show ?case by simp
next
  case (Cons Snw Sarr)
  from saturation_point_measurable [OF Cons.prems, of env ip pair Snw c] obtain c1 st1 where
    p: "saturation_point env ip pair flow Fi Fo Snw (c, st) = Inr (c1, st1)"
    "BP_1 st1 = BP_1 st" "BP_2 st1 = BP_2 st" "perm_wp st1 = perm_wp st"
    "perm_nwp st1 = perm_nwp st"
    by blast
  have "measurable st1 Fi Fo flow"
    using Cons.prems measurable_cong [OF p(2,3,4,5)] by simp
  from Cons.IH [OF this, of c1] obtain c' st' where
    s: "saturation_sweep env ip pair flow Fi Fo Sarr (c1, st1) = Inr (c', st')"
    "BP_1 st' = BP_1 st1" "BP_2 st' = BP_2 st1" "perm_wp st' = perm_wp st1"
    "perm_nwp st' = perm_nwp st1"
    by blast
  have "saturation_sweep env ip pair flow Fi Fo (Snw # Sarr) (c, st) = Inr (c', st')"
    by (simp add: p(1) s(1) ebind_def)
  then show ?case
    using p s by simp
qed

lemma axis_sweep_valid:
  assumes "\<forall>p \<in> set pairs. valid_pair p \<and> [p ! 0] \<in> keys Ii \<and> measurable st Fi Fo [p ! 1]"
  shows "\<exists>ip' st'. axis_sweep env Ii Fi Fo Sarr pairs (ip, st) = Inr (ip', st')"
  using assms
proof (induction pairs arbitrary: ip st)
  case Nil
  then show ?case by simp
next
  case (Cons pair pairs)
  from Cons.prems have v: "valid_pair pair" "[pair ! 0] \<in> keys Ii" "measurable st Fi Fo [pair ! 1]"
    by simp_all
  from v(1) have s: "str_at pair 0 = Inr [pair ! 0]" "str_at pair 1 = Inr [pair ! 1]"
    by (auto simp: valid_pair_def str_at_def)
  from dict_get_key [OF v(2)] obtain inlets where i: "dict_get Ii [pair ! 0] = Inr inlets"
    by blast
  let ?ip = "ip_run env (ip_set_inlets env ip inlets)"
  let ?st = "st\<lparr>swept := swept st @ [pair]\<rparr>"
  have "measurable ?st Fi Fo [pair ! 1]"
    using v(3) by (simp add: measurable_def solvable_def)
  from saturation_sweep_measurable [OF this, of env ?ip pair Sarr]
  obtain c1 st1 where
    sw: "saturation_sweep env ?ip pair [pair ! 1] Fi Fo Sarr
           (\<lparr>curve_relperm_wp = [], curve_relperm_nwp = [], Snwparr = []\<rparr>, ?st) = Inr (c1, st1)"
    "BP_1 st1 = BP_1 ?st" "BP_2 st1 = BP_2 ?st" "perm_wp st1 = perm_wp ?st"
    "perm_nwp st1 = perm_nwp ?st"
    by blast
  have "measurable st1 Fi Fo = measurable st Fi Fo"
    using sw(2,3,4,5) by (simp add: measurable_def solvable_def fun_eq_iff)
  then have "\<forall>p \<in> set pairs. valid_pair p \<and> [p ! 0] \<in> keys Ii \<and> measurable st1 Fi Fo [p ! 1]"
    using Cons.prems by simp
  from Cons.IH [OF this, of ?ip] obtain ip' st' where
    "axis_sweep env Ii Fi Fo Sarr pairs (?ip, st1) = Inr (ip', st')"
    by blast
  then have "axis_sweep env Ii Fi Fo Sarr (pair # pairs) (ip, st) = Inr (ip', st')"
    unfolding axis_sweep.simps prod.case s i ebind_def sum.case Let_def sw(1)
    by simp
  then show ?case
    by blast
qed

lemma setup_ip_algs_valid:
  assumes "input_vect st = Some a" and "h a = Some pairs"
    and "\<forall>p \<in> set pairs. valid_pair p \<and> flow_ready st [p ! 1] \<and> [p ! 0] \<in> keys (inv_inlets st)"
    and "consistent st"
    and "\<forall>ks. set (iter_set env ks) = set ks"
  shows "\<exists>st'. setup_ip_algs env h st = Inr st'"
proof -
  let ?pores_of = "map (\<lambda>(axis, label). (axis, network_pores env label))"
  let ?Ii = "map (\<lambda>(key, ps). (key, every_other ps)) (?pores_of (inv_inlets st))"
  let ?Fi = "?pores_of (flow_inlets st)"
  let ?Fo = "?pores_of (flow_outlets st)"
  let ?K = "iter_set env (map fst (flow_inlets st))"
  let ?st0 = "st\<lparr>wp_occupancy := None, nwp_occupancy := None\<rparr>"
  have kI: "keys ?Ii = keys (inv_inlets st)" and kFi: "keys ?Fi = keys (flow_inlets st)"
    and kFo: "keys ?Fo = keys (flow_outlets st)"
    by (force simp: keys_def)+
  have K: "set ?K = keys (flow_inlets st)"
    using assms(5) by (simp add: keys_def)
  have ready: "solvable ?st0 ?Fi ?Fo f" if "flow_ready st f" for f
    using that by (simp add: solvable_def flow_ready_def kFi kFo)
  have "\<forall>axis \<in> set ?K. solvable ?st0 ?Fi ?Fo axis"
    using assms(4) ready unfolding K consistent_def by blast
  from baselines_solvable [OF this, of env] obtain st1 where
    b: "baselines env ?Fi ?Fo ?K ?st0 = Inr st1" "BP_1 st1 = BP_1 ?st0" "BP_2 st1 = BP_2 ?st0"
    "input_vect st1 = input_vect ?st0"
    "keys (perm_wp st1) = set ?K \<union> keys (perm_wp ?st0)"
    "keys (perm_nwp st1) = set ?K \<union> keys (perm_nwp ?st0)"
    by blast
  obtain Sarr where l: "linspace 0 1 10 = Inr Sarr"
    by (simp add: linspace_def)
  have iv: "(case input_vect st1 of
               None \<Rightarrow> Inl (KeyError ''input_vect'')
             | Some a \<Rightarrow> (case h a of None \<Rightarrow> Inl AttributeError | Some pairs \<Rightarrow> Inr pairs))
            = Inr pairs"
    using assms(1,2) b(4) by simp
  have "\<forall>p \<in> set pairs. valid_pair p \<and> [p ! 0] \<in> keys ?Ii \<and> measurable st1 ?Fi ?Fo [p ! 1]"
  proof
    fix p assume "p \<in> set pairs"
    with assms(3) have v: "valid_pair p" "flow_ready st [p ! 1]" "[p ! 0] \<in> keys (inv_inlets st)"
      by blast+
    from v(2) have "[p ! 1] \<in> set ?K"
      unfolding K by (simp add: flow_ready_def)
    then have "measurable st1 ?Fi ?Fo [p ! 1]"
      using ready [OF v(2)] b(2,3,5,6) by (simp add: measurable_def solvable_def)
    then show "valid_pair p \<and> [p ! 0] \<in> keys ?Ii \<and> measurable st1 ?Fi ?Fo [p ! 1]"
      using v(1,3) kI by simp
  qed
  from axis_sweep_valid [OF this, of env Sarr "ip_new env"] obtain ip' st' where
    "axis_sweep env ?Ii ?Fi ?Fo Sarr pairs (ip_new env, st1) = Inr (ip', st')"
    by blast
  then have "setup_ip_algs env h st = Inr st'"
    unfolding setup_ip_algs_def Let_def b(1) l iv ebind_def sum.case
    by simp
  then show ?thesis
    by blast
qed

lemma relperm_setup_valid:
  assumes "h vect = Some pairs" and "\<forall>p \<in> set pairs. valid_pair p" and "consistent st"
    and "\<forall>ks. set (iter_set env ks) = set ks"
  shows "\<exists>st'. snd (relperm_setup env vect h st) = Inr st'"
proof -
  let ?st1 = "st\<lparr>input_vect := Some vect\<rparr>"
  have c: "consistent ?st1"
    using assms(3) by (simp add: consistent_def flow_ready_def)
  have "\<forall>p \<in> set (sort pairs). valid_pair p"
    using assms(2) by simp
  from register_pairs_valid [OF this, of ?st1] c obtain st2 where
    r: "register_pairs (sort pairs) ?st1 = Inr st2"
    "\<forall>p \<in> set (sort pairs). flow_ready st2 [p ! 1] \<and> [p ! 0] \<in> keys (inv_inlets st2)"
    "consistent st2"
    by blast
  have iv: "input_vect st2 = Some vect"
    using register_pairs_Inr [OF r(1)] by simp
  have "\<forall>p \<in> set (sort pairs).
          valid_pair p \<and> flow_ready st2 [p ! 1] \<and> [p ! 0] \<in> keys (inv_inlets st2)"
    using assms(2) r(2) by simp
  from setup_ip_algs_valid [OF iv _ this r(3) assms(4), of "h(vect \<mapsto> sort pairs)"]
  obtain st' where "setup_ip_algs env (h(vect \<mapsto> sort pairs)) st2 = Inr st'"
    by auto
  then show ?thesis
    using assms(1) by (simp add: relperm_setup_def Let_def r(1) ebind_def)
qed

text \<open>
  C10: \<open>setup\<close> sorts the list it is given in place before storing it: after the call
  the caller's list object holds the same axis pairs in lexicographic order, the
  settings refer to that object, the sweep takes the axis pairs in that sorted order, and
  the outcome is the same for every order in which the caller lists the same pairs.
  When every pair is two letters among x, y and z the call does not raise.
\<close>

theorem setup_sorts_in_place:
  assumes "h vect = Some pairs"
  shows "fst (relperm_setup env vect h st) = h(vect \<mapsto> sort pairs)
       \<and> sorted (sort pairs) \<and> mset (sort pairs) = mset pairs
       \<and> (\<forall>st'. snd (relperm_setup env vect h st) = Inr st' \<longrightarrow>
            input_vect st' = Some vect \<and> swept st' = swept st @ sort pairs)
       \<and> (\<forall>pairs'. mset pairs' = mset pairs \<longrightarrow>
            relperm_setup env vect (h(vect \<mapsto> pairs')) st = relperm_setup env vect h st)
       \<and> ((\<forall>p \<in> set pairs. valid_pair p) \<and> consistent st
            \<and> (\<forall>ks. set (iter_set env ks) = set ks) \<longrightarrow>
            (\<exists>st'. snd (relperm_setup env vect h st) = Inr st'))"
proof (intro conjI allI impI)
  show "fst (relperm_setup env vect h st) = h(vect \<mapsto> sort pairs)"
    using assms by (simp add: relperm_setup_def Let_def)
  show "sorted (sort pairs)" and "mset (sort pairs) = mset pairs"
    by simp_all
next
  fix st'
  assume "snd (relperm_setup env vect h st) = Inr st'"
  then obtain st2 where
    r: "register_pairs (sort pairs) (st\<lparr>input_vect := Some vect\<rparr>) = Inr st2"
    and s: "setup_ip_algs env (h(vect \<mapsto> sort pairs)) st2 = Inr st'"
    using assms by (auto simp: relperm_setup_def Let_def ebind_Inr)
  from register_pairs_Inr [OF r] have st2: "input_vect st2 = Some vect" "swept st2 = swept st"
    by simp_all
  from setup_ip_algs_Inr [OF s]
  have res: "input_vect st' = Some vect \<and> swept st' = swept st @ sort pairs"
    using st2 by auto
  show "input_vect st' = Some vect"
    using res by simp
  show "swept st' = swept st @ sort pairs"
    using res by simp
next
  fix pairs'
  assume "mset pairs' = mset pairs"
  then have "sort pairs' = sort pairs"
    by (rule sort_mset_eq)
  then show "relperm_setup env vect (h(vect \<mapsto> pairs')) st = relperm_setup env vect h st"
    using assms by (simp add: relperm_setup_def)
next
  assume "(\<forall>p \<in> set pairs. valid_pair p) \<and> consistent st
            \<and> (\<forall>ks. set (iter_set env ks) = set ks)"
  then show "\<exists>st'. snd (relperm_setup env vect h st) = Inr st'"
    using relperm_setup_valid [where h = h and vect = vect and pairs = pairs and st = st
        and env = env] assms by blast
qed

theorem setup_sorts_in_place_witness:
  "[0 \<mapsto> [''yx'', ''xy'']] (0 :: addr) = Some [''yx'', ''xy'']
   \<and> valid_pair ''yx'' \<and> valid_pair ''xy'' \<and> consistent (new_relperm :: real relperm)
   \<and> (\<forall>ks. set (iter_set toy_env ks) = set ks)
   \<and> fst (relperm_setup toy_env 0 [0 \<mapsto> [''yx'', ''xy'']] new_relperm) 0 = Some [''xy'', ''yx'']
   \<and> (\<exists>st'. snd (relperm_setup toy_env 0 [0 \<mapsto> [''yx'', ''xy'']] new_relperm) = Inr st'
         \<and> input_vect st' = Some 0 \<and> swept st' = [''xy'', ''yx''])
   \<and> mset [''xy'', ''yx''] = mset [''yx'', ''xy'']
   \<and> relperm_setup toy_env 0 ([0 \<mapsto> [''yx'', ''xy'']](0 \<mapsto> [''xy'', ''yx''])) new_relperm
       = relperm_setup toy_env 0 [0 \<mapsto> [''yx'', ''xy'']] new_relperm"
proof -
  let ?h = "[(0 :: addr) \<mapsto> [''yx'', ''xy'']]"
  have h: "?h 0 = Some [''yx'', ''xy'']"
    by simp
  have srt: "sort [''yx'', ''xy''] = [''xy'', ''yx'']"
    by code_simp
  have m: "mset [''xy'', ''yx''] = mset [''yx'', ''xy'']"
    by simp
  have v: "valid_pair ''yx''" "valid_pair ''xy''"
    by (simp_all add: valid_pair_def)
  have c: "consistent (new_relperm :: real relperm)"
    by (simp add: consistent_def keys_def new_relperm_def)
  have i: "\<forall>ks. set (iter_set toy_env ks) = set ks"
    by (simp add: toy_env_def)
  note t = setup_sorts_in_place
    [where h = ?h and vect = 0 and env = toy_env and st = new_relperm, OF h, unfolded srt]
  have "\<forall>p \<in> set [''yx'', ''xy'']. valid_pair p"
    using v by simp
  with c i t obtain st' where s: "snd (relperm_setup toy_env 0 ?h new_relperm) = Inr st'"
    by blast
  note stored = t [THEN conjunct1]
  note order = t [THEN conjunct2, THEN conjunct2, THEN conjunct2, THEN conjunct1,
      THEN spec, THEN mp, OF s]
  note same = t [THEN conjunct2, THEN conjunct2, THEN conjunct2, THEN conjunct2,
      THEN conjunct1, THEN spec, THEN mp, OF m]
  have "swept (new_relperm :: real relperm) = []"
    by (simp add: new_relperm_def)
  then have o: "input_vect st' = Some 0 \<and> swept st' = [''xy'', ''yx'']"
    using order by simp
  have f: "fst (relperm_setup toy_env 0 ?h new_relperm) 0 = Some [''xy'', ''yx'']"
    by (simp only: stored fun_upd_same)
  show ?thesis
    using h v c i s m o f same by blast
qed

end
